theory Spec2Isabelle
  imports Complex_Main "HOL-Library.Sublist"
begin

section \<open>JavaScript values\<close>

text \<open>
  The deployer lambda (\<^verbatim>\<open>src/lambda/definitionDeployerLambda.ts\<close>) inspects thrown values
  and parsed JSON dynamically (\<^verbatim>\<open>typeof\<close>, optional chaining, truthiness), so both are
  embedded in one universal value type. Finite numbers are reals; the three non-finite
  doubles are separate constructors. An object carries whether it is an instance of
  \<^verbatim>\<open>Error\<close> (for \<^verbatim>\<open>instanceof Error\<close>) and its own properties as an association list.
\<close>

datatype objkind = ErrorInstance | PlainObject

datatype jsval =
    JUndefined
  | JNull
  | JBool bool
  | JNum real
  | JNaN
  | JPosInf
  | JNegInf
  | JStr string
  | JArr "jsval list"
  | JObj objkind "(string \<times> jsval) list"

text \<open>\<^verbatim>\<open>typeof v\<close>.\<close>

fun typeof :: "jsval \<Rightarrow> string" where
  "typeof JUndefined = ''undefined''"
| "typeof JNull = ''object''"
| "typeof (JBool b) = ''boolean''"
| "typeof (JNum r) = ''number''"
| "typeof JNaN = ''number''"
| "typeof JPosInf = ''number''"
| "typeof JNegInf = ''number''"
| "typeof (JStr s) = ''string''"
| "typeof (JArr vs) = ''object''"
| "typeof (JObj k fs) = ''object''"

text \<open>\<^verbatim>\<open>!v\<close>: the falsy values are undefined, null, false, 0, NaN and the empty string.\<close>

fun falsy :: "jsval \<Rightarrow> bool" where
  "falsy JUndefined = True"
| "falsy JNull = True"
| "falsy (JBool b) = (\<not> b)"
| "falsy (JNum r) = (r = 0)"
| "falsy JNaN = True"
| "falsy (JStr s) = (s = [])"
| "falsy _ = False"

text \<open>
  \<^verbatim>\<open>v >= c\<close> for a value whose \<^verbatim>\<open>typeof\<close> is \<^verbatim>\<open>'number'\<close> (the source compares only under
  that guard): NaN compares false with everything.
\<close>

fun num_ge :: "jsval \<Rightarrow> real \<Rightarrow> bool" where
  "num_ge (JNum r) c = (c \<le> r)"
| "num_ge JPosInf c = True"
| "num_ge _ c = False"

text \<open>
  \<^verbatim>\<open>v.p\<close> on a value that is neither null nor undefined, for the property names the source
  reads (\<^verbatim>\<open>workflowName\<close>, \<^verbatim>\<open>errorType\<close>, \<^verbatim>\<open>message\<close>, \<^verbatim>\<open>$metadata\<close>, \<^verbatim>\<open>httpStatusCode\<close>,
  \<^verbatim>\<open>statusCode\<close>, \<^verbatim>\<open>$fault\<close>): an own property of an object, else undefined; an \<^verbatim>\<open>Error\<close>
  instance without an own \<^verbatim>\<open>message\<close> inherits the empty one of its prototype.
  \<^verbatim>\<open>v?.p\<close> is undefined when \<^verbatim>\<open>v\<close> is null or undefined.
\<close>

fun getProp :: "jsval \<Rightarrow> string \<Rightarrow> jsval" where
  "getProp (JObj k fs) p =
     (case map_of fs p of
        Some v \<Rightarrow> v
      | None \<Rightarrow> if k = ErrorInstance \<and> p = ''message'' then JStr [] else JUndefined)"
| "getProp _ p = JUndefined"

definition optChain :: "jsval \<Rightarrow> string \<Rightarrow> jsval" where
  "optChain v p = (if v = JUndefined \<or> v = JNull then JUndefined else getProp v p)"

text \<open>\<^verbatim>\<open>new Error(msg)\<close> and the engine's \<^verbatim>\<open>TypeError\<close>, as far as the source observes them.\<close>

definition new_Error :: "string \<Rightarrow> jsval" where
  "new_Error msg = JObj ErrorInstance [(''message'', JStr msg)]"

definition new_TypeError :: "string \<Rightarrow> jsval" where
  "new_TypeError msg = JObj ErrorInstance [(''message'', JStr msg)]"

text \<open>\<^verbatim>\<open>s.includes(t)\<close> on strings: \<^verbatim>\<open>t\<close> occurs in \<^verbatim>\<open>s\<close> as a contiguous run.\<close>

fun str_includes :: "string \<Rightarrow> string \<Rightarrow> bool" where
  "str_includes [] t = (t = [])"
| "str_includes (c # cs) t = (prefix t (c # cs) \<or> str_includes cs t)"

section \<open>The remote collaborators\<close>

record workflow =
  workflowId :: string
  name :: string

record RegisterWorkflowVersionInput =
  in_organizationId :: string
  in_workflowId :: string
  in_definition :: string

text \<open>
  The body stream of a fetched object: the chunks it emits, then either \<^verbatim>\<open>end\<close> or an
  \<^verbatim>\<open>error\<close> event.
\<close>

datatype stream = Stream "string list" "jsval option"

text \<open>
  Every remote call the lambda makes is logged with its arguments and its outcome
  (\<open>Inl\<close> the thrown value, \<open>Inr\<close> the returned one); a backoff sleep is logged with its
  delay in milliseconds. Console output is not part of the log.
\<close>

datatype event =
    S3GetObject string string "jsval + stream"
  | ListWorkflows string "jsval + workflow list"
  | RegisterWorkflow string jsval "jsval + string"
  | RegisterWorkflowVersion RegisterWorkflowVersionInput "jsval + string"
  | GetTaggedWorkflowVersion string string string "jsval + string"
  | SetWorkflowVersionTag string string string string "jsval + unit"
  | GetSecretValue string "jsval + string option"
  | Sleep real

text \<open>
  The environment of one invocation: the remote services as functions of a world state
  \<open>'w\<close> that they may change, the JavaScript built-ins the source calls
  (\<^verbatim>\<open>JSON.parse\<close>, \<^verbatim>\<open>String.prototype.toUpperCase\<close>, \<^verbatim>\<open>String\<close>, \<^verbatim>\<open>Number\<close>), and
  \<^verbatim>\<open>process.env\<close>. \<open>api_*\<close> is the client returned by \<^verbatim>\<open>getApiClient()\<close>; a version is
  returned as its \<^verbatim>\<open>versionId\<close>, a created workflow as its \<^verbatim>\<open>workflowId\<close>.
  \<open>JSON_parse_keys\<close> is \<^verbatim>\<open>JSON.parse\<close> at the annotated type \<^verbatim>\<open>string[]\<close> of the key list.
\<close>

record 'w env =
  s3_send :: "string \<Rightarrow> string \<Rightarrow> 'w \<Rightarrow> (jsval + stream) \<times> 'w"
  secrets_send :: "string \<Rightarrow> 'w \<Rightarrow> (jsval + string option) \<times> 'w"
  api_listWorkflows :: "string \<Rightarrow> 'w \<Rightarrow> (jsval + workflow list) \<times> 'w"
  api_registerWorkflow :: "string \<Rightarrow> jsval \<Rightarrow> 'w \<Rightarrow> (jsval + string) \<times> 'w"
  api_registerWorkflowVersion :: "RegisterWorkflowVersionInput \<Rightarrow> 'w \<Rightarrow> (jsval + string) \<times> 'w"
  api_getTaggedWorkflowVersion :: "string \<Rightarrow> string \<Rightarrow> string \<Rightarrow> 'w \<Rightarrow> (jsval + string) \<times> 'w"
  api_setWorkflowVersionTag :: "string \<Rightarrow> string \<Rightarrow> string \<Rightarrow> string \<Rightarrow> 'w \<Rightarrow> (jsval + unit) \<times> 'w"
  JSON_parse :: "string \<Rightarrow> jsval + jsval"
  JSON_parse_keys :: "string \<Rightarrow> jsval + string list"
  toUpperCase :: "string \<Rightarrow> string"
  String_of :: "jsval \<Rightarrow> string"
  Number_of :: "string \<Rightarrow> jsval"
  process_env :: "string \<rightharpoonup> string"

type_synonym ('w, 'a) io = "'w \<Rightarrow> (jsval + 'a) \<times> 'w \<times> event list"

text \<open>A remote call: perform it on the world and log it with its outcome.\<close>

definition call :: "((jsval + 'a) \<Rightarrow> event) \<Rightarrow> ('w \<Rightarrow> (jsval + 'a) \<times> 'w) \<Rightarrow> ('w, 'a) io" where
  "call ev op w = (case op w of (r, w1) \<Rightarrow> (r, w1, [ev r]))"

text \<open>
  \<^verbatim>\<open>const x = await m; rest\<close>: a rejection of \<^verbatim>\<open>m\<close> is thrown and skips the rest; the logs
  are concatenated in order.
\<close>

definition await :: "('w, 'a) io \<Rightarrow> ('a \<Rightarrow> ('w, 'b) io) \<Rightarrow> ('w, 'b) io" where
  "await m f w =
     (case m w of
        (Inl e, w1, evs) \<Rightarrow> (Inl e, w1, evs)
      | (Inr x, w1, evs) \<Rightarrow> (case f x w1 of (r, w2, evs') \<Rightarrow> (r, w2, evs @ evs')))"

text \<open>A computation without remote calls, returning or throwing.\<close>

definition pure :: "jsval + 'a \<Rightarrow> ('w, 'a) io" where
  "pure r w = (r, w, [])"

section \<open>Retry policy\<close>

text \<open>\<^verbatim>\<open>parseNumberEnv\<close> and the two module constants computed from \<^verbatim>\<open>process.env\<close>.\<close>

definition parseNumberEnv :: "'w env \<Rightarrow> string option \<Rightarrow> real \<Rightarrow> real" where
  "parseNumberEnv E v fallback =
     (let parsed = (case v of None \<Rightarrow> JNaN | Some s \<Rightarrow> Number_of E s)
      in case parsed of JNum r \<Rightarrow> r | _ \<Rightarrow> fallback)"

definition DEFAULT_REGISTER_ATTEMPTS :: "'w env \<Rightarrow> real" where
  "DEFAULT_REGISTER_ATTEMPTS E =
     parseNumberEnv E (process_env E ''REGISTER_WORKFLOW_VERSION_MAX_ATTEMPTS'') 3"

definition DEFAULT_REGISTER_BASE_DELAY_MS :: "'w env \<Rightarrow> real" where
  "DEFAULT_REGISTER_BASE_DELAY_MS E =
     parseNumberEnv E (process_env E ''REGISTER_WORKFLOW_VERSION_BASE_DELAY_MS'') 1000"

definition shouldRetryRegister :: "jsval \<Rightarrow> bool" where
  "shouldRetryRegister err =
     (if falsy err \<or> typeof err \<noteq> ''object'' then False
      else
        let metadataStatus = optChain (optChain err ''$metadata'') ''httpStatusCode'' in
        if typeof metadataStatus = ''number'' then num_ge metadataStatus 500
        else
          let fallbackStatus = getProp err ''statusCode'' in
          if typeof fallbackStatus = ''number'' then num_ge fallbackStatus 500
          else
            let smithyFault = getProp err ''$fault'' in
            smithyFault = JStr ''server'')"

text \<open>
  The \<^verbatim>\<open>for\<close> loop of \<^verbatim>\<open>registerWorkflowVersionWithRetry\<close>, from attempt \<open>attempt\<close> on. The
  loop counter is a natural number, the two bounds are the numbers read from the
  environment. The product \<^verbatim>\<open>baseDelayMs * 2 ** (attempt - 1)\<close> is taken in the reals: in
  doubles a product with a power of two is exact short of overflow.
\<close>

function registerWorkflowVersionWithRetry_loop ::
  "'w env \<Rightarrow> real \<Rightarrow> real \<Rightarrow> RegisterWorkflowVersionInput \<Rightarrow> nat \<Rightarrow> ('w, string) io" where
  "registerWorkflowVersionWithRetry_loop E maxAttempts baseDelayMs payload attempt w =
     (if real attempt \<le> maxAttempts then
        (case call (RegisterWorkflowVersion payload) (api_registerWorkflowVersion E payload) w of
           (Inr registered, w1, evs) \<Rightarrow> (Inr registered, w1, evs)
         | (Inl err, w1, evs) \<Rightarrow>
             if maxAttempts \<le> real attempt \<or> \<not> shouldRetryRegister err then (Inl err, w1, evs)
             else
               (let delay = baseDelayMs * 2 ^ (attempt - 1) in
                case registerWorkflowVersionWithRetry_loop E maxAttempts baseDelayMs payload
                       (attempt + 1) w1 of
                  (r, w2, evs') \<Rightarrow> (r, w2, evs @ [Sleep delay] @ evs')))
      else
        (Inl (new_Error ''registerWorkflowVersionWithRetry exhausted attempts unexpectedly''),
         w, []))"
  by pat_completeness auto
termination
proof (relation "measure (\<lambda>(E, maxAttempts, baseDelayMs, payload, attempt, w).
                   nat \<lceil>maxAttempts\<rceil> + 1 - attempt)")
  show "wf (measure (\<lambda>(E :: 'w env, maxAttempts, baseDelayMs :: real,
                       payload :: RegisterWorkflowVersionInput, attempt, w :: 'w).
                   nat \<lceil>maxAttempts\<rceil> + 1 - attempt))"
    by simp
next
  fix E :: "'w env" and maxAttempts baseDelayMs :: real
    and payload :: RegisterWorkflowVersionInput and attempt :: nat and w w1 :: 'w
  assume le: "real attempt \<le> maxAttempts"
  have "real attempt \<le> real_of_int \<lceil>maxAttempts\<rceil>"
    using le by linarith
  then have "int attempt \<le> \<lceil>maxAttempts\<rceil>"
    by linarith
  then have "attempt \<le> nat \<lceil>maxAttempts\<rceil>"
    by linarith
  then show "((E, maxAttempts, baseDelayMs, payload, attempt + 1, w1),
              (E, maxAttempts, baseDelayMs, payload, attempt, w))
             \<in> measure (\<lambda>(E, maxAttempts, baseDelayMs, payload, attempt, w).
                   nat \<lceil>maxAttempts\<rceil> + 1 - attempt)"
    by simp
qed

definition registerWorkflowVersionWithRetry ::
  "'w env \<Rightarrow> RegisterWorkflowVersionInput \<Rightarrow> jsval \<Rightarrow> ('w, string) io" where
  "registerWorkflowVersionWithRetry E payload workflowName =
     (let maxAttempts = max 1 (DEFAULT_REGISTER_ATTEMPTS E);
          baseDelayMs = max 0 (DEFAULT_REGISTER_BASE_DELAY_MS E)
      in registerWorkflowVersionWithRetry_loop E maxAttempts baseDelayMs payload 1)"

declare registerWorkflowVersionWithRetry_loop.simps [simp del]

section \<open>Reconciler\<close>

text \<open>\<^verbatim>\<open>streamToString\<close>: resolves with the concatenated chunks on \<^verbatim>\<open>end\<close>, rejects on \<^verbatim>\<open>error\<close>.\<close>

definition streamToString :: "stream \<Rightarrow> jsval + string" where
  "streamToString s =
     (case s of Stream chunks None \<Rightarrow> Inr (concat chunks) | Stream chunks (Some e) \<Rightarrow> Inl e)"

text \<open>
  The message \<^verbatim>\<open>File ${key} - missing "workflowName"\<close>; the dash of the source is an em
  dash, written here as its three UTF-8 bytes.
\<close>

definition missing_workflowName_message :: "string \<Rightarrow> string" where
  "missing_workflowName_message key =
     ''File '' @ key @ [CHR '' '', CHR 0xE2, CHR 0x80, CHR 0x94] @ '' missing '' @
     [CHR 0x22] @ ''workflowName'' @ [CHR 0x22]"

text \<open>
  \<^verbatim>\<open>workflowName.toUpperCase()\<close> on the parsed, truthy \<^verbatim>\<open>workflowName\<close>: only a string has
  the method; on any other value the call throws a \<^verbatim>\<open>TypeError\<close>.
\<close>

definition workflowName_toUpperCase :: "'w env \<Rightarrow> jsval \<Rightarrow> jsval + string" where
  "workflowName_toUpperCase E workflowName =
     (case workflowName of
        JStr s \<Rightarrow> Inr (toUpperCase E s)
      | _ \<Rightarrow> Inl (new_TypeError ''workflowName.toUpperCase is not a function''))"

text \<open>
  \<^verbatim>\<open>workflows.find((w) => w.name.toUpperCase() === workflowName.toUpperCase())\<close>: the first
  workflow whose predicate holds; the predicate is evaluated, and may throw, only on a
  non-empty list.
\<close>

fun find_matchingWorkflow :: "'w env \<Rightarrow> jsval \<Rightarrow> workflow list \<Rightarrow> jsval + workflow option" where
  "find_matchingWorkflow E workflowName [] = Inr None"
| "find_matchingWorkflow E workflowName (w # ws) =
     (let lhs = toUpperCase E (name w) in
      case workflowName_toUpperCase E workflowName of
        Inl e \<Rightarrow> Inl e
      | Inr rhs \<Rightarrow> if lhs = rhs then Inr (Some w) else find_matchingWorkflow E workflowName ws)"

text \<open>
  \<^verbatim>\<open>err?.message?.includes(t)\<close> as a condition: false when the message is null or
  undefined, the substring test on a string, membership on an array, and a \<^verbatim>\<open>TypeError\<close>
  on any other value, which has no \<^verbatim>\<open>includes\<close> method.
\<close>

definition message_includes :: "jsval \<Rightarrow> string \<Rightarrow> jsval + bool" where
  "message_includes err t =
     (case optChain err ''message'' of
        JUndefined \<Rightarrow> Inr False
      | JNull \<Rightarrow> Inr False
      | JStr s \<Rightarrow> Inr (str_includes s t)
      | JArr vs \<Rightarrow> Inr (JStr t \<in> set vs)
      | _ \<Rightarrow> Inl (new_TypeError ''err?.message?.includes is not a function''))"

text \<open>
  The condition of the \<^verbatim>\<open>catch\<close> around \<^verbatim>\<open>getTaggedWorkflowVersion\<close>, with the
  short-circuit order of \<^verbatim>\<open>||\<close>:
  \<^verbatim>\<open>err?.errorType === 'NotFoundError' || err?.message?.includes('No version tagged')
  || err?.message?.includes('No version found')\<close>.
\<close>

definition noLiveVersionFound :: "jsval \<Rightarrow> jsval + bool" where
  "noLiveVersionFound err =
     (if optChain err ''errorType'' = JStr ''NotFoundError'' then Inr True
      else case message_includes err ''No version tagged'' of
             Inl e \<Rightarrow> Inl e
           | Inr True \<Rightarrow> Inr True
           | Inr False \<Rightarrow> message_includes err ''No version found'')"

text \<open>
  The \<^verbatim>\<open>try\<close>/\<^verbatim>\<open>catch\<close> that reads the live version: the \<^verbatim>\<open>versionId\<close> of the version tagged
  \<^verbatim>\<open>$LIVE\<close>, or \<open>None\<close> for \<^verbatim>\<open>null\<close> when the call throws and the condition above holds.
\<close>

definition read_live :: "'w env \<Rightarrow> string \<Rightarrow> string \<Rightarrow> ('w, string option) io" where
  "read_live E organizationId wfId w =
     (case call (GetTaggedWorkflowVersion organizationId wfId ''$LIVE'')
             (api_getTaggedWorkflowVersion E organizationId wfId ''$LIVE'') w of
        (Inr live, w1, evs) \<Rightarrow> (Inr (Some live), w1, evs)
      | (Inl err, w1, evs) \<Rightarrow>
          (case noLiveVersionFound err of
             Inl thrown \<Rightarrow> (Inl thrown, w1, evs)
           | Inr True \<Rightarrow> (Inr None, w1, evs)
           | Inr False \<Rightarrow> (Inl err, w1, evs)))"

text \<open>
  The body of the \<^verbatim>\<open>for\<close> loop of \<^verbatim>\<open>deployWorkflows\<close> for one key, in two parts. The
  second part, \<open>register_and_promote\<close>, starts at the call of
  \<^verbatim>\<open>registerWorkflowVersionWithRetry\<close>, once the definition text, the workflow name and the
  workflow id are known. The outer \<^verbatim>\<open>catch\<close> logs and rethrows, so it does not appear;
  \<^verbatim>\<open>continue\<close> is a normal return.
\<close>

definition register_and_promote ::
  "'w env \<Rightarrow> string \<Rightarrow> string \<Rightarrow> jsval \<Rightarrow> string \<Rightarrow> ('w, unit) io" where
  "register_and_promote E organizationId definitionStr workflowName wfId =
     await (registerWorkflowVersionWithRetry E
              \<lparr>in_organizationId = organizationId, in_workflowId = wfId,
               in_definition = definitionStr\<rparr> workflowName) (\<lambda>registered.
     await (read_live E organizationId wfId) (\<lambda>live.
     if live = Some registered then pure (Inr ())
     else call (SetWorkflowVersionTag organizationId wfId ''$LIVE'' registered)
            (api_setWorkflowVersionTag E organizationId wfId ''$LIVE'' registered)))"

definition deployWorkflows_body :: "'w env \<Rightarrow> string \<Rightarrow> string \<Rightarrow> string \<Rightarrow> ('w, unit) io" where
  "deployWorkflows_body E organizationId bucket key =
     await (call (S3GetObject bucket key) (s3_send E bucket key)) (\<lambda>obj.
     await (pure (streamToString obj)) (\<lambda>definitionStr.
     await (pure (JSON_parse E definitionStr)) (\<lambda>definitionJson.
     let workflowName = optChain definitionJson ''workflowName'' in
     if falsy workflowName then pure (Inl (new_Error (missing_workflowName_message key)))
     else
     await (call (ListWorkflows organizationId) (api_listWorkflows E organizationId)) (\<lambda>workflows.
     await (pure (find_matchingWorkflow E workflowName workflows)) (\<lambda>matchingWorkflow.
     await (case matchingWorkflow of
              None \<Rightarrow> call (RegisterWorkflow organizationId workflowName)
                        (api_registerWorkflow E organizationId workflowName)
            | Some m \<Rightarrow> pure (Inr (workflowId m))) (\<lambda>wfId.
     register_and_promote E organizationId definitionStr workflowName wfId))))))"

text \<open>\<^verbatim>\<open>deployWorkflows\<close>: the keys in order; a throw of the body leaves the loop.\<close>

fun deployWorkflows :: "'w env \<Rightarrow> string \<Rightarrow> string \<Rightarrow> string list \<Rightarrow> ('w, unit) io" where
  "deployWorkflows E organizationId bucket [] w = (Inr (), w, [])"
| "deployWorkflows E organizationId bucket (key # keys) w =
     (case deployWorkflows_body E organizationId bucket key w of
        (Inl err, w1, evs) \<Rightarrow> (Inl err, w1, evs)
      | (Inr u, w1, evs) \<Rightarrow>
          (case deployWorkflows E organizationId bucket keys w1 of
             (r, w2, evs') \<Rightarrow> (r, w2, evs @ evs')))"

section \<open>Lifecycle handler\<close>

datatype RequestType = Create | Update | Delete

fun RequestType_text :: "RequestType \<Rightarrow> string" where
  "RequestType_text Create = ''Create''"
| "RequestType_text Update = ''Update''"
| "RequestType_text Delete = ''Delete''"

record response =
  PhysicalResourceId :: string
  Data :: "(string \<times> jsval) list"

definition PLACEHOLDER_TOKEN :: string where
  "PLACEHOLDER_TOKEN = ''REPLACE_ME_WITH_JUST_WORKFLOW_IT_AUTH_TOKEN''"

text \<open>
  \<^verbatim>\<open>getSecretValueByName\<close> (\<^verbatim>\<open>justWorkflowItApiClient.ts\<close>): one \<^verbatim>\<open>GetSecretValue\<close> call, of
  which the \<^verbatim>\<open>SecretString\<close> is returned (\<open>None\<close> for undefined).
\<close>

definition getSecretValueByName :: "'w env \<Rightarrow> string \<Rightarrow> ('w, string option) io" where
  "getSecretValueByName E secretName = call (GetSecretValue secretName) (secrets_send E secretName)"

text \<open>\<^verbatim>\<open>error instanceof Error ? error.message : String(error)\<close>.\<close>

definition error_text :: "'w env \<Rightarrow> jsval \<Rightarrow> jsval" where
  "error_text E error =
     (case error of
        JObj ErrorInstance fs \<Rightarrow> getProp error ''message''
      | _ \<Rightarrow> JStr (String_of E error))"

text \<open>
  \<^verbatim>\<open>handler\<close>. Of the event only \<^verbatim>\<open>RequestType\<close> is read. \<^verbatim>\<open>!v\<close> on an environment variable
  holds when it is unset or empty, and \<^verbatim>\<open>v || '[]'\<close> replaces exactly those.
\<close>

definition handler :: "'w env \<Rightarrow> RequestType \<Rightarrow> ('w, response) io" where
  "handler E requestType =
     (let bucket = process_env E ''DEFINITION_BUCKET'';
          organizationId = process_env E ''ORGANIZATION_ID'';
          authSecretName = process_env E ''AUTH_SECRET_NAME''
      in
      await (pure (JSON_parse_keys E
               (case process_env E ''DEFINITION_KEYS_JSON'' of
                  None \<Rightarrow> ''[]''
                | Some s \<Rightarrow> if s = [] then ''[]'' else s))) (\<lambda>keys.
      let ignoreFailures = (process_env E ''IGNORE_FAILURES'' = Some ''true'') in
      if bucket = None \<or> bucket = Some [] then
        pure (Inl (new_Error ''Missing S3 bucket from environment variables''))
      else if organizationId = None \<or> organizationId = Some [] then
        pure (Inl (new_Error ''Missing organization ID from environment variables''))
      else if authSecretName = None \<or> authSecretName = Some [] then
        pure (Inl (new_Error ''Missing auth secret name from environment variables''))
      else
      await (getSecretValueByName E (the authSecretName)) (\<lambda>authToken.
      if authToken = Some PLACEHOLDER_TOKEN then
        pure (Inr \<lparr>PhysicalResourceId = ''JustWorkflowItIntegrationTrigger'',
                   Data = [(''Message'', JStr (''Skipped '' @ RequestType_text requestType @
                                               '' - placeholder token detected'')),
                           (''PlaceholderTokenDetected'', JStr ''true'')]\<rparr>)
      else
      await
        (if requestType = Create \<or> requestType = Update then
           (if keys = [] then pure (Inr None)
            else (\<lambda>w.
              case deployWorkflows E (the organizationId) (the bucket) keys w of
                (Inr u, w1, evs) \<Rightarrow> (Inr None, w1, evs)
              | (Inl error, w1, evs) \<Rightarrow>
                  if ignoreFailures then
                    (Inr (Some \<lparr>PhysicalResourceId = ''JustWorkflowItIntegrationTrigger'',
                                Data = [(''Message'', JStr (RequestType_text requestType @
                                                           '' completed with ignored failures'')),
                                        (''FailureIgnored'', JStr ''true''),
                                        (''Error'', error_text E error)]\<rparr>), w1, evs)
                  else (Inl error, w1, evs)))
         else pure (Inr None)) (\<lambda>returned.
      case returned of
        Some early \<Rightarrow> pure (Inr early)
      | None \<Rightarrow>
          pure (Inr \<lparr>PhysicalResourceId = ''JustWorkflowItIntegrationTrigger'',
                     Data = [(''Message'', JStr (''Ran '' @ RequestType_text requestType @
                                                 '' successfully''))]\<rparr>)))))"

section \<open>The retry classification as specified\<close>

text \<open>
  The classification in the words of the specification: the primary status field is
  \<^verbatim>\<open>$metadata.httpStatusCode\<close>, the fallback status field is \<^verbatim>\<open>statusCode\<close>, each present
  when it holds a number, and the fault indicator is \<^verbatim>\<open>$fault\<close>. An error is retryable when
  its primary status is at least 500; when the primary status is absent, when its fallback
  status is at least 500; when both are absent, when the fault indicator is \<^verbatim>\<open>"server"\<close>.
\<close>

definition primary_status :: "jsval \<Rightarrow> jsval option" where
  "primary_status err =
     (let v = optChain (optChain err ''$metadata'') ''httpStatusCode''
      in if typeof v = ''number'' then Some v else None)"

definition fallback_status :: "jsval \<Rightarrow> jsval option" where
  "fallback_status err =
     (let v = optChain err ''statusCode'' in if typeof v = ''number'' then Some v else None)"

definition fault_indicator :: "jsval \<Rightarrow> jsval" where
  "fault_indicator err = optChain err ''$fault''"

definition spec_retryable :: "jsval \<Rightarrow> bool" where
  "spec_retryable err =
     (case primary_status err of
        Some status \<Rightarrow> num_ge status 500
      | None \<Rightarrow>
          (case fallback_status err of
             Some status \<Rightarrow> num_ge status 500
           | None \<Rightarrow> fault_indicator err = JStr ''server''))"

section \<open>Reading the log\<close>

text \<open>Kinds of logged events, and the keys fetched from storage, in order.\<close>

fun is_storage_call :: "event \<Rightarrow> bool" where
  "is_storage_call (S3GetObject bucket key r) = True"
| "is_storage_call _ = False"

fun is_registry_call :: "event \<Rightarrow> bool" where
  "is_registry_call (ListWorkflows organizationId r) = True"
| "is_registry_call (RegisterWorkflow organizationId nm r) = True"
| "is_registry_call (RegisterWorkflowVersion payload r) = True"
| "is_registry_call (GetTaggedWorkflowVersion organizationId wfId tag r) = True"
| "is_registry_call (SetWorkflowVersionTag organizationId wfId tag versionId r) = True"
| "is_registry_call _ = False"

fun is_RegisterWorkflow :: "event \<Rightarrow> bool" where
  "is_RegisterWorkflow (RegisterWorkflow organizationId nm r) = True"
| "is_RegisterWorkflow _ = False"

fun is_SetWorkflowVersionTag :: "event \<Rightarrow> bool" where
  "is_SetWorkflowVersionTag (SetWorkflowVersionTag organizationId wfId tag versionId r) = True"
| "is_SetWorkflowVersionTag _ = False"

fun live_tag_was_set :: "event \<Rightarrow> bool" where
  "live_tag_was_set (SetWorkflowVersionTag organizationId wfId tag versionId (Inr u)) = True"
| "live_tag_was_set _ = False"

fun fetched_keys :: "event list \<Rightarrow> string list" where
  "fetched_keys [] = []"
| "fetched_keys (S3GetObject bucket key r # evs) = key # fetched_keys evs"
| "fetched_keys (ev # evs) = fetched_keys evs"

text \<open>The calls of the first part of the loop body.\<close>

fun is_resolution_call :: "event \<Rightarrow> bool" where
  "is_resolution_call (S3GetObject bucket key r) = True"
| "is_resolution_call (ListWorkflows organizationId r) = True"
| "is_resolution_call (RegisterWorkflow organizationId nm r) = True"
| "is_resolution_call _ = False"

section \<open>A simulated deployment, for concrete runs\<close>

text \<open>
  The concrete runs below use a small simulated world: a bucket with fixed objects, a
  registry that keeps its workflows and live tags, derives a version id from the workflow
  id and the definition text, and can be scripted to throw given errors from the first
  calls of \<^verbatim>\<open>registerWorkflowVersion\<close> or from \<^verbatim>\<open>getTaggedWorkflowVersion\<close>. \<^verbatim>\<open>JSON.parse\<close>,
  \<^verbatim>\<open>Number\<close> and \<^verbatim>\<open>toUpperCase\<close> are given on the texts the runs use.
\<close>

record sim_world =
  sim_workflows :: "workflow list"
  sim_live :: "(string \<times> string) list"
  sim_register_calls :: nat

record sim_config =
  cfg_objects :: "(string \<times> stream) list"
  cfg_json :: "(string \<times> jsval) list"
  cfg_keys :: "string list"
  cfg_register_errors :: "jsval list"
  cfg_tag_error :: "jsval option"
  cfg_secret :: "jsval + string option"
  cfg_process_env :: "(string \<times> string) list"

definition service_error :: "string \<Rightarrow> real \<Rightarrow> string \<Rightarrow> jsval" where
  "service_error errorType status msg =
     JObj ErrorInstance
       [(''errorType'', JStr errorType), (''message'', JStr msg),
        (''$metadata'', JObj PlainObject [(''httpStatusCode'', JNum status)])]"

definition ascii_toUpperCase :: "string \<Rightarrow> string" where
  "ascii_toUpperCase s =
     map (\<lambda>c. case map_of (zip ''abcdefghijklmnopqrstuvwxyz'' ''ABCDEFGHIJKLMNOPQRSTUVWXYZ'') c of
                 Some u \<Rightarrow> u
               | None \<Rightarrow> c) s"

definition sim_env :: "sim_config \<Rightarrow> sim_world env" where
  "sim_env cfg =
     \<lparr>s3_send = (\<lambda>bucket key w.
        (case map_of (cfg_objects cfg) key of
           Some body \<Rightarrow> Inr body
         | None \<Rightarrow> Inl (service_error ''NoSuchKey'' 404 ''The specified key does not exist.''), w)),
      secrets_send = (\<lambda>secretName w. (cfg_secret cfg, w)),
      api_listWorkflows = (\<lambda>organizationId w. (Inr (sim_workflows w), w)),
      api_registerWorkflow = (\<lambda>organizationId nm w.
        case nm of
          JStr s \<Rightarrow>
            (Inr (''wf-'' @ s),
             w\<lparr>sim_workflows := sim_workflows w @ [\<lparr>workflowId = ''wf-'' @ s, name = s\<rparr>]\<rparr>)
        | _ \<Rightarrow> (Inl (service_error ''ValidationError'' 400 ''name must be a string''), w)),
      api_registerWorkflowVersion = (\<lambda>payload w.
        (if sim_register_calls w < length (cfg_register_errors cfg)
         then Inl (cfg_register_errors cfg ! sim_register_calls w)
         else Inr (in_workflowId payload @ ''#'' @ in_definition payload),
         w\<lparr>sim_register_calls := Suc (sim_register_calls w)\<rparr>)),
      api_getTaggedWorkflowVersion = (\<lambda>organizationId wfId tag w.
        (case cfg_tag_error cfg of
           Some e \<Rightarrow> Inl e
         | None \<Rightarrow>
             (case map_of (sim_live w) wfId of
                Some v \<Rightarrow> Inr v
              | None \<Rightarrow> Inl (service_error ''NotFoundError'' 404 ''No version tagged $LIVE'')), w)),
      api_setWorkflowVersionTag = (\<lambda>organizationId wfId tag versionId w.
        (Inr (), w\<lparr>sim_live := (wfId, versionId) # sim_live w\<rparr>)),
      JSON_parse = (\<lambda>s.
        case map_of (cfg_json cfg) s of
          Some v \<Rightarrow> Inr v
        | None \<Rightarrow> Inl (new_Error ''Unexpected token in JSON'')),
      JSON_parse_keys = (\<lambda>s. if s = ''[]'' then Inr [] else Inr (cfg_keys cfg)),
      toUpperCase = ascii_toUpperCase,
      String_of = (\<lambda>v. case v of JStr s \<Rightarrow> s | _ \<Rightarrow> ''[object Object]''),
      Number_of = (\<lambda>s. if s = ''3'' then JNum 3 else if s = ''250'' then JNum 250 else JNaN),
      process_env = map_of (cfg_process_env cfg)\<rparr>"

definition sim_start :: sim_world where
  "sim_start = \<lparr>sim_workflows = [], sim_live = [], sim_register_calls = 0\<rparr>"

definition sim_default :: sim_config where
  "sim_default =
     \<lparr>cfg_objects = [], cfg_json = [], cfg_keys = [], cfg_register_errors = [],
      cfg_tag_error = None, cfg_secret = Inr (Some ''token''),
      cfg_process_env =
        [(''DEFINITION_BUCKET'', ''bucket''), (''ORGANIZATION_ID'', ''org''),
         (''AUTH_SECRET_NAME'', ''secret''), (''DEFINITION_KEYS_JSON'', ''keys'')]\<rparr>"

text \<open>
  A registry whose first three calls of \<^verbatim>\<open>registerWorkflowVersion\<close> throw a 503 (primary
  status field), a 502 (fallback status field) and a server fault, with three attempts and
  a base delay of 250 ms configured.
\<close>

definition retry_cfg :: sim_config where
  "retry_cfg = sim_default\<lparr>
     cfg_register_errors :=
       [service_error ''InternalFailure'' 503 ''unavailable'',
        JObj ErrorInstance [(''message'', JStr ''bad gateway''), (''statusCode'', JNum 502)],
        JObj ErrorInstance [(''message'', JStr ''fault''), (''$fault'', JStr ''server'')]],
     cfg_process_env := cfg_process_env sim_default @
       [(''REGISTER_WORKFLOW_VERSION_MAX_ATTEMPTS'', ''3''),
        (''REGISTER_WORKFLOW_VERSION_BASE_DELAY_MS'', ''250'')]\<rparr>"

definition sim_payload :: RegisterWorkflowVersionInput where
  "sim_payload = \<lparr>in_organizationId = ''org'', in_workflowId = ''wf-1'', in_definition = ''{}''\<rparr>"

text \<open>A registry whose first call of \<^verbatim>\<open>registerWorkflowVersion\<close> throws a 400.\<close>

definition client_error_cfg :: sim_config where
  "client_error_cfg = sim_default\<lparr>
     cfg_register_errors := [service_error ''ValidationError'' 400 ''invalid definition'']\<rparr>"

text \<open>
  Three objects, of which the second does not parse as JSON; the first and the third define
  the workflows \<^verbatim>\<open>alpha\<close> and \<^verbatim>\<open>gamma\<close>.
\<close>

definition abort_cfg :: sim_config where
  "abort_cfg = sim_default\<lparr>
     cfg_objects := [(''a.json'', Stream [''A''] None), (''b.json'', Stream [''B''] None),
                     (''c.json'', Stream [''C''] None)],
     cfg_json := [(''A'', JObj PlainObject [(''workflowName'', JStr ''alpha'')]),
                  (''C'', JObj PlainObject [(''workflowName'', JStr ''gamma'')])],
     cfg_keys := [''a.json'', ''b.json'', ''c.json'']\<rparr>"

definition after_alpha :: sim_world where
  "after_alpha =
     \<lparr>sim_workflows = [\<lparr>workflowId = ''wf-alpha'', name = ''alpha''\<rparr>],
      sim_live = [(''wf-alpha'', ''wf-alpha#A'')], sim_register_calls = 1\<rparr>"

definition alpha_events :: "event list" where
  "alpha_events =
     [S3GetObject ''bucket'' ''a.json'' (Inr (Stream [''A''] None)),
      ListWorkflows ''org'' (Inr []),
      RegisterWorkflow ''org'' (JStr ''alpha'') (Inr ''wf-alpha''),
      RegisterWorkflowVersion
        \<lparr>in_organizationId = ''org'', in_workflowId = ''wf-alpha'', in_definition = ''A''\<rparr>
        (Inr ''wf-alpha#A''),
      GetTaggedWorkflowVersion ''org'' ''wf-alpha'' ''$LIVE''
        (Inl (service_error ''NotFoundError'' 404 ''No version tagged $LIVE'')),
      SetWorkflowVersionTag ''org'' ''wf-alpha'' ''$LIVE'' ''wf-alpha#A'' (Inr ())]"

text \<open>
  Two objects that parse as JSON: \<^verbatim>\<open>m.json\<close> has no \<^verbatim>\<open>workflowName\<close>, \<^verbatim>\<open>n.json\<close> has the
  number 5 as its \<^verbatim>\<open>workflowName\<close>.
\<close>

definition malformed_cfg :: sim_config where
  "malformed_cfg = sim_default\<lparr>
     cfg_objects := [(''m.json'', Stream [''M''] None), (''n.json'', Stream [''N''] None)],
     cfg_json := [(''M'', JObj PlainObject [(''steps'', JArr [])]),
                  (''N'', JObj PlainObject [(''workflowName'', JNum 5)])],
     cfg_keys := [''m.json'', ''n.json'']\<rparr>"

text \<open>
  A registry that already has the workflow \<^verbatim>\<open>Billing\<close>, and an object defining the
  workflow \<^verbatim>\<open>billing\<close>.
\<close>

definition billing_cfg :: sim_config where
  "billing_cfg = sim_default\<lparr>
     cfg_objects := [(''bill.json'', Stream [''D''] None)],
     cfg_json := [(''D'', JObj PlainObject [(''workflowName'', JStr ''billing'')])],
     cfg_keys := [''bill.json'']\<rparr>"

definition billing_start :: sim_world where
  "billing_start = sim_start\<lparr>sim_workflows := [\<lparr>workflowId = ''wf-7'', name = ''Billing''\<rparr>]\<rparr>"

definition billing_events :: "event list" where
  "billing_events =
     [S3GetObject ''bucket'' ''bill.json'' (Inr (Stream [''D''] None)),
      ListWorkflows ''org'' (Inr [\<lparr>workflowId = ''wf-7'', name = ''Billing''\<rparr>]),
      RegisterWorkflowVersion
        \<lparr>in_organizationId = ''org'', in_workflowId = ''wf-7'', in_definition = ''D''\<rparr>
        (Inr ''wf-7#D''),
      GetTaggedWorkflowVersion ''org'' ''wf-7'' ''$LIVE''
        (Inl (service_error ''NotFoundError'' 404 ''No version tagged $LIVE'')),
      SetWorkflowVersionTag ''org'' ''wf-7'' ''$LIVE'' ''wf-7#D'' (Inr ())]"

definition billing_done :: sim_world where
  "billing_done = billing_start\<lparr>sim_live := [(''wf-7'', ''wf-7#D'')], sim_register_calls := 1\<rparr>"

text \<open>
  The registry of the three objects, with a read of the live version that throws: once an
  access error, once an internal error whose message happens to contain
  \<^verbatim>\<open>No version found\<close>.
\<close>

definition tag_denied_cfg :: sim_config where
  "tag_denied_cfg = abort_cfg\<lparr>
     cfg_tag_error := Some (service_error ''AccessDeniedError'' 403 ''not allowed'')\<rparr>"

definition tag_internal_cfg :: sim_config where
  "tag_internal_cfg = abort_cfg\<lparr>
     cfg_tag_error :=
       Some (service_error ''InternalServerError'' 500 ''No version found in replica'')\<rparr>"

definition alpha_registered :: sim_world where
  "alpha_registered =
     \<lparr>sim_workflows = [\<lparr>workflowId = ''wf-alpha'', name = ''alpha''\<rparr>],
      sim_live = [], sim_register_calls = 1\<rparr>"

definition alpha_events_until :: "jsval \<Rightarrow> event list" where
  "alpha_events_until err =
     [S3GetObject ''bucket'' ''a.json'' (Inr (Stream [''A''] None)),
      ListWorkflows ''org'' (Inr []),
      RegisterWorkflow ''org'' (JStr ''alpha'') (Inr ''wf-alpha''),
      RegisterWorkflowVersion
        \<lparr>in_organizationId = ''org'', in_workflowId = ''wf-alpha'', in_definition = ''A''\<rparr>
        (Inr ''wf-alpha#A''),
      GetTaggedWorkflowVersion ''org'' ''wf-alpha'' ''$LIVE'' (Inl err)]"

text \<open>The second run on \<^verbatim>\<open>a.json\<close>, started where the first run ended.\<close>

definition after_alpha_again :: sim_world where
  "after_alpha_again = after_alpha\<lparr>sim_register_calls := 2\<rparr>"

definition alpha_again_events :: "event list" where
  "alpha_again_events =
     [S3GetObject ''bucket'' ''a.json'' (Inr (Stream [''A''] None)),
      ListWorkflows ''org'' (Inr [\<lparr>workflowId = ''wf-alpha'', name = ''alpha''\<rparr>]),
      RegisterWorkflowVersion
        \<lparr>in_organizationId = ''org'', in_workflowId = ''wf-alpha'', in_definition = ''A''\<rparr>
        (Inr ''wf-alpha#A''),
      GetTaggedWorkflowVersion ''org'' ''wf-alpha'' ''$LIVE'' (Inr ''wf-alpha#A'')]"

text \<open>
  The three objects once more: with the placeholder as the stored credential; with a secret
  store that throws; and with a registry whose calls of \<^verbatim>\<open>registerWorkflowVersion\<close> all throw
  a 503 while \<^verbatim>\<open>IGNORE_FAILURES\<close> is set.
\<close>

definition placeholder_cfg :: sim_config where
  "placeholder_cfg = abort_cfg\<lparr>cfg_secret := Inr (Some PLACEHOLDER_TOKEN)\<rparr>"

definition secret_gone_cfg :: sim_config where
  "secret_gone_cfg = abort_cfg\<lparr>
     cfg_secret := Inl (service_error ''ResourceNotFoundException'' 400 ''secret not found'')\<rparr>"

definition outage_cfg :: sim_config where
  "outage_cfg = abort_cfg\<lparr>
     cfg_register_errors :=
       [service_error ''InternalFailure'' 503 ''unavailable'',
        service_error ''InternalFailure'' 503 ''unavailable'',
        service_error ''InternalFailure'' 503 ''unavailable''],
     cfg_process_env := cfg_process_env sim_default @ [(''IGNORE_FAILURES'', ''true'')]\<rparr>"

definition outage_world :: sim_world where
  "outage_world =
     \<lparr>sim_workflows = [\<lparr>workflowId = ''wf-alpha'', name = ''alpha''\<rparr>],
      sim_live = [], sim_register_calls = 3\<rparr>"

definition outage_events :: "event list" where
  "outage_events =
     [S3GetObject ''bucket'' ''a.json'' (Inr (Stream [''A''] None)),
      ListWorkflows ''org'' (Inr []),
      RegisterWorkflow ''org'' (JStr ''alpha'') (Inr ''wf-alpha''),
      RegisterWorkflowVersion
        \<lparr>in_organizationId = ''org'', in_workflowId = ''wf-alpha'', in_definition = ''A''\<rparr>
        (Inl (service_error ''InternalFailure'' 503 ''unavailable'')),
      Sleep 1000,
      RegisterWorkflowVersion
        \<lparr>in_organizationId = ''org'', in_workflowId = ''wf-alpha'', in_definition = ''A''\<rparr>
        (Inl (service_error ''InternalFailure'' 503 ''unavailable'')),
      Sleep 2000,
      RegisterWorkflowVersion
        \<lparr>in_organizationId = ''org'', in_workflowId = ''wf-alpha'', in_definition = ''A''\<rparr>
        (Inl (service_error ''InternalFailure'' 503 ''unavailable''))]"

text \<open>
  The second run on \<^verbatim>\<open>a.json\<close> when the read of the live version throws \<open>err\<close> again, and
  the world after two promotions.
\<close>

definition alpha_again_events_until :: "jsval \<Rightarrow> event list" where
  "alpha_again_events_until err =
     [S3GetObject ''bucket'' ''a.json'' (Inr (Stream [''A''] None)),
      ListWorkflows ''org'' (Inr [\<lparr>workflowId = ''wf-alpha'', name = ''alpha''\<rparr>]),
      RegisterWorkflowVersion
        \<lparr>in_organizationId = ''org'', in_workflowId = ''wf-alpha'', in_definition = ''A''\<rparr>
        (Inr ''wf-alpha#A''),
      GetTaggedWorkflowVersion ''org'' ''wf-alpha'' ''$LIVE'' (Inl err)]"

definition promoted_twice :: sim_world where
  "promoted_twice =
     \<lparr>sim_workflows = [\<lparr>workflowId = ''wf-alpha'', name = ''alpha''\<rparr>],
      sim_live = [(''wf-alpha'', ''wf-alpha#A''), (''wf-alpha'', ''wf-alpha#A'')],
      sim_register_calls = 2\<rparr>"

section \<open>Verified properties\<close>

subsection \<open>One step of the retry loop\<close>

lemma loop_step_fail_last:
  assumes "api_registerWorkflowVersion E payload w = (Inl e, w1)"
    and "real attempt \<le> m" and "m \<le> real attempt \<or> \<not> shouldRetryRegister e"
  shows "registerWorkflowVersionWithRetry_loop E m b payload attempt w =
           (Inl e, w1, [RegisterWorkflowVersion payload (Inl e)])"
  using assms
  by (subst registerWorkflowVersionWithRetry_loop.simps) (auto simp: call_def)

lemma loop_step_retry:
  assumes "api_registerWorkflowVersion E payload w = (Inl e, w1)"
    and "real attempt < m" and "shouldRetryRegister e"
  shows "registerWorkflowVersionWithRetry_loop E m b payload attempt w =
           (case registerWorkflowVersionWithRetry_loop E m b payload (attempt + 1) w1 of
              (r, w2, evs) \<Rightarrow>
                (r, w2, RegisterWorkflowVersion payload (Inl e) # Sleep (b * 2 ^ (attempt - 1)) # evs))"
  using assms
  by (subst registerWorkflowVersionWithRetry_loop.simps) (auto simp: call_def Let_def)

lemma loop_step_ok:
  assumes "api_registerWorkflowVersion E payload w = (Inr v, w1)"
    and "real attempt \<le> m"
  shows "registerWorkflowVersionWithRetry_loop E m b payload attempt w =
           (Inr v, w1, [RegisterWorkflowVersion payload (Inr v)])"
  using assms
  by (subst registerWorkflowVersionWithRetry_loop.simps) (auto simp: call_def)

subsection \<open>Retry bound\<close>

text \<open>
  Claim C1. With three attempts configured, when the first, second and third call of
  \<^verbatim>\<open>registerWorkflowVersion\<close> throw \<open>e1\<close>, \<open>e2\<close> and \<open>e3\<close>, and \<open>e1\<close> and \<open>e2\<close> are classified
  retryable, \<^verbatim>\<open>registerWorkflowVersionWithRetry\<close> makes exactly these three calls, throws
  \<open>e3\<close> itself, and sleeps \<open>baseDelayMs * 2 ^ (k - 1)\<close> after attempt \<open>k = 1, 2\<close> and not after
  the third; \<open>baseDelayMs\<close> is the configured base delay, raised to 0 if negative. The
  classification of the last error plays no role.
\<close>

theorem retry_three_attempts:
  assumes cfg: "DEFAULT_REGISTER_ATTEMPTS E = 3"
    and a1: "api_registerWorkflowVersion E payload w0 = (Inl e1, w1)"
    and a2: "api_registerWorkflowVersion E payload w1 = (Inl e2, w2)"
    and a3: "api_registerWorkflowVersion E payload w2 = (Inl e3, w3)"
    and r1: "shouldRetryRegister e1" and r2: "shouldRetryRegister e2"
  shows "registerWorkflowVersionWithRetry E payload workflowName w0 =
           (Inl e3, w3,
            [RegisterWorkflowVersion payload (Inl e1),
             Sleep (max 0 (DEFAULT_REGISTER_BASE_DELAY_MS E) * 2 ^ (1 - 1)),
             RegisterWorkflowVersion payload (Inl e2),
             Sleep (max 0 (DEFAULT_REGISTER_BASE_DELAY_MS E) * 2 ^ (2 - 1)),
             RegisterWorkflowVersion payload (Inl e3)])"
proof -
  let ?b = "max 0 (DEFAULT_REGISTER_BASE_DELAY_MS E)"
  have s3: "registerWorkflowVersionWithRetry_loop E 3 ?b payload (Suc (Suc (Suc 0))) w2 =
              (Inl e3, w3, [RegisterWorkflowVersion payload (Inl e3)])"
    using a3 by (intro loop_step_fail_last) auto
  have s2: "registerWorkflowVersionWithRetry_loop E 3 ?b payload (Suc (Suc 0)) w1 =
              (Inl e3, w3, [RegisterWorkflowVersion payload (Inl e2), Sleep (?b * 2 ^ (2 - 1)),
                            RegisterWorkflowVersion payload (Inl e3)])"
    using loop_step_retry [OF a2, of "Suc (Suc 0)" 3 ?b] r2 s3 by simp
  have s1: "registerWorkflowVersionWithRetry_loop E 3 ?b payload (Suc 0) w0 =
              (Inl e3, w3, [RegisterWorkflowVersion payload (Inl e1), Sleep (?b * 2 ^ (1 - 1)),
                            RegisterWorkflowVersion payload (Inl e2), Sleep (?b * 2 ^ (2 - 1)),
                            RegisterWorkflowVersion payload (Inl e3)])"
    using loop_step_retry [OF a1, of "Suc 0" 3 ?b] r1 s2 by simp
  show ?thesis
    using s1 by (simp add: registerWorkflowVersionWithRetry_def cfg)
qed

text \<open>
  The run on the scripted registry: three calls, sleeps of 250 ms and 500 ms between them,
  and the third error, the server fault, thrown.
\<close>

theorem retry_three_attempts_witness:
  "registerWorkflowVersionWithRetry (sim_env retry_cfg) sim_payload (JStr ''billing'') sim_start =
     (Inl (JObj ErrorInstance [(''message'', JStr ''fault''), (''$fault'', JStr ''server'')]),
      sim_start\<lparr>sim_register_calls := 3\<rparr>,
      [RegisterWorkflowVersion sim_payload
         (Inl (service_error ''InternalFailure'' 503 ''unavailable'')),
       Sleep 250,
       RegisterWorkflowVersion sim_payload
         (Inl (JObj ErrorInstance [(''message'', JStr ''bad gateway''), (''statusCode'', JNum 502)])),
       Sleep 500,
       RegisterWorkflowVersion sim_payload
         (Inl (JObj ErrorInstance [(''message'', JStr ''fault''), (''$fault'', JStr ''server'')]))])"
  using retry_three_attempts [of "sim_env retry_cfg" sim_payload sim_start
      "service_error ''InternalFailure'' 503 ''unavailable''" "sim_start\<lparr>sim_register_calls := 1\<rparr>"
      "JObj ErrorInstance [(''message'', JStr ''bad gateway''), (''statusCode'', JNum 502)]"
      "sim_start\<lparr>sim_register_calls := 2\<rparr>"
      "JObj ErrorInstance [(''message'', JStr ''fault''), (''$fault'', JStr ''server'')]"
      "sim_start\<lparr>sim_register_calls := 3\<rparr>" "JStr ''billing''"]
  by (simp add: DEFAULT_REGISTER_ATTEMPTS_def DEFAULT_REGISTER_BASE_DELAY_MS_def parseNumberEnv_def
      sim_env_def retry_cfg_def sim_default_def sim_start_def shouldRetryRegister_def
      service_error_def optChain_def)

subsection \<open>Retry classification\<close>

lemma shouldRetryRegister_spec: "shouldRetryRegister err = spec_retryable err"
  by (cases err)
     (auto simp: shouldRetryRegister_def spec_retryable_def primary_status_def fallback_status_def
        fault_indicator_def optChain_def Let_def)

lemma retry_first_attempt_not_retryable:
  assumes "api_registerWorkflowVersion E payload w = (Inl e, w1)" and "\<not> shouldRetryRegister e"
  shows "registerWorkflowVersionWithRetry E payload workflowName w =
           (Inl e, w1, [RegisterWorkflowVersion payload (Inl e)])"
  unfolding registerWorkflowVersionWithRetry_def Let_def
  using assms by (intro loop_step_fail_last) auto

text \<open>
  Claim C2. \<^verbatim>\<open>shouldRetryRegister\<close> classifies every thrown value as the specification
  words it: by the primary status field when it holds a number, else by the fallback status
  field when it holds a number, else by the fault indicator being \<^verbatim>\<open>"server"\<close>. And when the
  first call of \<^verbatim>\<open>registerWorkflowVersion\<close> throws an error that is not retryable, whatever
  the configured number of attempts, that error is thrown after this one call and without
  any sleep.
\<close>

theorem retry_classification:
  "(\<forall>err. shouldRetryRegister err = spec_retryable err) \<and>
   (\<forall>(E :: 'w env) payload workflowName w e w1.
      api_registerWorkflowVersion E payload w = (Inl e, w1) \<and> \<not> shouldRetryRegister e \<longrightarrow>
      registerWorkflowVersionWithRetry E payload workflowName w =
        (Inl e, w1, [RegisterWorkflowVersion payload (Inl e)]))"
proof (intro conjI allI impI)
  fix err
  show "shouldRetryRegister err = spec_retryable err"
    by (rule shouldRetryRegister_spec)
next
  fix E :: "'w env" and payload workflowName w e w1
  assume "api_registerWorkflowVersion E payload w = (Inl e, w1) \<and> \<not> shouldRetryRegister e"
  then show "registerWorkflowVersionWithRetry E payload workflowName w =
               (Inl e, w1, [RegisterWorkflowVersion payload (Inl e)])"
    by (simp add: retry_first_attempt_not_retryable)
qed

text \<open>A 400 from the first call: not retryable, one call, no sleep.\<close>

theorem retry_classification_witness:
  "\<not> shouldRetryRegister (service_error ''ValidationError'' 400 ''invalid definition'') \<and>
   registerWorkflowVersionWithRetry (sim_env client_error_cfg) sim_payload (JStr ''billing'') sim_start =
     (Inl (service_error ''ValidationError'' 400 ''invalid definition''),
      sim_start\<lparr>sim_register_calls := 1\<rparr>,
      [RegisterWorkflowVersion sim_payload
         (Inl (service_error ''ValidationError'' 400 ''invalid definition''))])"
  using retry_classification [THEN conjunct2, rule_format,
      of "sim_env client_error_cfg" sim_payload sim_start
         "service_error ''ValidationError'' 400 ''invalid definition''"
         "sim_start\<lparr>sim_register_calls := 1\<rparr>" "JStr ''billing''"]
    retry_classification [THEN conjunct1, rule_format,
      of "service_error ''ValidationError'' 400 ''invalid definition''"]
  by (simp add: sim_env_def client_error_cfg_def sim_default_def sim_start_def
      spec_retryable_def primary_status_def service_error_def optChain_def)

subsection \<open>What a run of the retry loop logs\<close>

lemma retry_loop_events:
  "registerWorkflowVersionWithRetry_loop E m b payload attempt w = (r, w', evs) \<Longrightarrow>
   (\<forall>ev \<in> set evs. (\<exists>res. ev = RegisterWorkflowVersion payload res) \<or> (\<exists>d. ev = Sleep d)) \<and>
   (\<forall>v. r = Inr v \<longrightarrow> evs \<noteq> [] \<and> last evs = RegisterWorkflowVersion payload (Inr v)) \<and>
   (\<forall>v res. RegisterWorkflowVersion payload res \<in> set evs \<longrightarrow> res = Inr v \<longrightarrow> r = Inr v)"
proof (induction E m b payload attempt w arbitrary: r w' evs
       rule: registerWorkflowVersionWithRetry_loop.induct)
  case (1 E m b payload attempt w)
  show ?case
  proof (cases "real attempt \<le> m")
    case False
    with "1.prems" show ?thesis
      by (subst (asm) registerWorkflowVersionWithRetry_loop.simps) auto
  next
    case le: True
    obtain res w1 where op: "api_registerWorkflowVersion E payload w = (res, w1)"
      by (cases "api_registerWorkflowVersion E payload w")
    show ?thesis
    proof (cases res)
      case (Inr v)
      with op le "1.prems" show ?thesis
        by (auto simp: loop_step_ok)
    next
      case (Inl e)
      show ?thesis
      proof (cases "m \<le> real attempt \<or> \<not> shouldRetryRegister e")
        case True
        with op Inl le "1.prems" show ?thesis
          by (auto simp: loop_step_fail_last)
      next
        case False
        then have lt: "real attempt < m" and re: "shouldRetryRegister e" by auto
        obtain r2 w2 evs2 where rec:
          "registerWorkflowVersionWithRetry_loop E m b payload (attempt + 1) w1 = (r2, w2, evs2)"
          by (cases "registerWorkflowVersionWithRetry_loop E m b payload (attempt + 1) w1")
        have ih: "(\<forall>ev \<in> set evs2. (\<exists>res. ev = RegisterWorkflowVersion payload res) \<or> (\<exists>d. ev = Sleep d)) \<and>
           (\<forall>v. r2 = Inr v \<longrightarrow> evs2 \<noteq> [] \<and> last evs2 = RegisterWorkflowVersion payload (Inr v)) \<and>
           (\<forall>v res. RegisterWorkflowVersion payload res \<in> set evs2 \<longrightarrow> res = Inr v \<longrightarrow> r2 = Inr v)"
        proof (rule "1.IH" [OF le _ refl _ _ refl rec])
          show "(Inl e, w1, [RegisterWorkflowVersion payload (Inl e)]) =
                  call (RegisterWorkflowVersion payload) (api_registerWorkflowVersion E payload) w"
            by (simp add: call_def op Inl)
          show "(w1, [RegisterWorkflowVersion payload (Inl e)]) =
                  (w1, [RegisterWorkflowVersion payload (Inl e)])"
            by (rule refl)
          show "\<not> (m \<le> real attempt \<or> \<not> shouldRetryRegister e)"
            by (rule False)
        qed
        have "registerWorkflowVersionWithRetry_loop E m b payload attempt w =
                (r2, w2, RegisterWorkflowVersion payload (Inl e) # Sleep (b * 2 ^ (attempt - 1)) # evs2)"
          using loop_step_retry [OF op [unfolded Inl] lt re, of b] rec by simp
        with "1.prems" have "r = r2"
          and "evs = RegisterWorkflowVersion payload (Inl e) # Sleep (b * 2 ^ (attempt - 1)) # evs2"
          by auto
        with ih show ?thesis by auto
      qed
    qed
  qed
qed

lemma retry_events:
  assumes "registerWorkflowVersionWithRetry E payload workflowName w = (r, w', evs)"
  shows "\<forall>ev \<in> set evs. (\<exists>res. ev = RegisterWorkflowVersion payload res) \<or> (\<exists>d. ev = Sleep d)"
    and "\<And>v. r = Inr v \<Longrightarrow> evs \<noteq> [] \<and> last evs = RegisterWorkflowVersion payload (Inr v)"
    and "\<And>v. RegisterWorkflowVersion payload (Inr v) \<in> set evs \<Longrightarrow> r = Inr v"
  using retry_loop_events [OF assms [unfolded registerWorkflowVersionWithRetry_def Let_def]]
  by auto

lemma retry_attempted:
  assumes "registerWorkflowVersionWithRetry E payload workflowName w = (r, w', evs)"
  shows "\<exists>res evs'. evs = RegisterWorkflowVersion payload res # evs'"
  using assms
  unfolding registerWorkflowVersionWithRetry_def Let_def
  by (subst (asm) registerWorkflowVersionWithRetry_loop.simps)
     (auto simp: call_def Let_def split: prod.splits sum.splits if_splits)

subsection \<open>Sequencing\<close>

lemma await_pure:
  "await (pure s) f w = (case s of Inl e \<Rightarrow> (Inl e, w, []) | Inr x \<Rightarrow> f x w)"
  by (cases s) (auto simp: await_def pure_def split: prod.splits)

lemma await_call:
  "await (call ev op) f w =
     (case op w of
        (Inl e, w1) \<Rightarrow> (Inl e, w1, [ev (Inl e)])
      | (Inr x, w1) \<Rightarrow> (case f x w1 of (r, w2, evs) \<Rightarrow> (r, w2, ev (Inr x) # evs)))"
  by (auto simp: await_def call_def split: prod.splits sum.splits)

lemma awaitE:
  assumes "await m f w = (r, w', evs)"
  obtains (thrown) e where "m w = (Inl e, w', evs)" and "r = Inl e"
  | (returned) x w1 evs1 evs2 where "m w = (Inr x, w1, evs1)" and "f x w1 = (r, w', evs2)"
      and "evs = evs1 @ evs2"
  using assms by (auto simp: await_def split: prod.splits sum.splits)

lemma read_live_cases:
  assumes "read_live E organizationId wfId w = (r, w', evs)"
  obtains res where "evs = [GetTaggedWorkflowVersion organizationId wfId ''$LIVE'' res]"
    and "api_getTaggedWorkflowVersion E organizationId wfId ''$LIVE'' w = (res, w')"
    and "r = (case res of
                Inr live \<Rightarrow> Inr (Some live)
              | Inl err \<Rightarrow> (case noLiveVersionFound err of
                              Inl thrown \<Rightarrow> Inl thrown
                            | Inr True \<Rightarrow> Inr None
                            | Inr False \<Rightarrow> Inl err))"
  using assms
  by (auto simp: read_live_def call_def split: prod.splits sum.splits bool.splits)

subsection \<open>The paths through the loop body\<close>

lemma register_and_promote_cases:
  assumes run: "register_and_promote E organizationId definitionStr workflowName wfId w = (r, w', evs)"
  obtains (register_failed) e where
      "registerWorkflowVersionWithRetry E
         \<lparr>in_organizationId = organizationId, in_workflowId = wfId, in_definition = definitionStr\<rparr>
         workflowName w = (Inl e, w', evs)"
      and "r = Inl e"
  | (live_failed) v w1 revs err where
      "registerWorkflowVersionWithRetry E
         \<lparr>in_organizationId = organizationId, in_workflowId = wfId, in_definition = definitionStr\<rparr>
         workflowName w = (Inr v, w1, revs)"
      and "evs = revs @ [GetTaggedWorkflowVersion organizationId wfId ''$LIVE'' (Inl err)]"
      and "noLiveVersionFound err \<noteq> Inr True"
      and "r = Inl (case noLiveVersionFound err of Inl thrown \<Rightarrow> thrown | Inr b \<Rightarrow> err)"
  | (already_live) v w1 revs where
      "registerWorkflowVersionWithRetry E
         \<lparr>in_organizationId = organizationId, in_workflowId = wfId, in_definition = definitionStr\<rparr>
         workflowName w = (Inr v, w1, revs)"
      and "evs = revs @ [GetTaggedWorkflowVersion organizationId wfId ''$LIVE'' (Inr v)]"
      and "r = Inr ()"
  | (promoted) v w1 revs lres where
      "registerWorkflowVersionWithRetry E
         \<lparr>in_organizationId = organizationId, in_workflowId = wfId, in_definition = definitionStr\<rparr>
         workflowName w = (Inr v, w1, revs)"
      and "evs = revs @ [GetTaggedWorkflowVersion organizationId wfId ''$LIVE'' lres,
                        SetWorkflowVersionTag organizationId wfId ''$LIVE'' v r]"
      and "(\<exists>l. lres = Inr l \<and> l \<noteq> v) \<or> (\<exists>err. lres = Inl err \<and> noLiveVersionFound err = Inr True)"
proof -
  let ?payload = "\<lparr>in_organizationId = organizationId, in_workflowId = wfId,
                   in_definition = definitionStr\<rparr>"
  from run [unfolded register_and_promote_def] show thesis
  proof (cases rule: awaitE)
    case (thrown e)
    then show thesis by (rule register_failed)
  next
    case (returned v w1 revs evs2)
    from returned(2) show thesis
    proof (cases rule: awaitE)
      case (thrown e)
      from thrown(1) obtain res where
        levs: "evs2 = [GetTaggedWorkflowVersion organizationId wfId ''$LIVE'' res]"
        and lr: "Inl e = (case res of
                Inr live \<Rightarrow> Inr (Some live)
              | Inl err \<Rightarrow> (case noLiveVersionFound err of
                              Inl thrown \<Rightarrow> Inl thrown
                            | Inr True \<Rightarrow> Inr None
                            | Inr False \<Rightarrow> Inl err))"
        by (rule read_live_cases)
      from lr obtain err where res: "res = Inl err"
        and nl: "noLiveVersionFound err \<noteq> Inr True"
        and e: "e = (case noLiveVersionFound err of Inl thrown \<Rightarrow> thrown | Inr b \<Rightarrow> err)"
        by (cases res) (auto split: sum.splits bool.splits)
      show thesis
        using returned(1) _ nl
      proof (rule live_failed)
        show "evs = revs @ [GetTaggedWorkflowVersion organizationId wfId ''$LIVE'' (Inl err)]"
          using returned(3) levs res by simp
        show "r = Inl (case noLiveVersionFound err of Inl thrown \<Rightarrow> thrown | Inr b \<Rightarrow> err)"
          using thrown(2) e by simp
      qed
    next
      case inner: (returned live w2 levs pevs)
      from inner(1) obtain res where
        levs: "levs = [GetTaggedWorkflowVersion organizationId wfId ''$LIVE'' res]"
        and lr: "Inr live = (case res of
                Inr live \<Rightarrow> Inr (Some live)
              | Inl err \<Rightarrow> (case noLiveVersionFound err of
                              Inl thrown \<Rightarrow> Inl thrown
                            | Inr True \<Rightarrow> Inr None
                            | Inr False \<Rightarrow> Inl err))"
        by (rule read_live_cases)
      show thesis
      proof (cases "live = Some v")
        case True
        with lr have res: "res = Inr v"
          by (cases res) (auto split: sum.splits bool.splits)
        from True inner(2) have "r = Inr ()" and "pevs = []"
          by (auto simp: pure_def)
        with returned(1) returned(3) inner(3) levs res show thesis
          by (intro already_live) auto
      next
        case False
        with lr have how: "(\<exists>l. res = Inr l \<and> l \<noteq> v) \<or>
                           (\<exists>err. res = Inl err \<and> noLiveVersionFound err = Inr True)"
          by (cases res) (auto split: sum.splits bool.splits)
        from False inner(2)
        have "pevs = [SetWorkflowVersionTag organizationId wfId ''$LIVE'' v r]"
          by (auto simp: call_def split: prod.splits)
        with returned(1) returned(3) inner(3) levs how show thesis
          by (intro promoted) auto
      qed
    qed
  qed
qed

lemma find_matchingWorkflow_string:
  "find_matchingWorkflow E (JStr n) wfs =
     Inr (find (\<lambda>w. toUpperCase E (name w) = toUpperCase E n) wfs)"
  by (induction wfs) (auto simp: workflowName_toUpperCase_def Let_def)

lemma deployWorkflows_body_cases:
  assumes run: "deployWorkflows_body E organizationId bucket key w = (r, w', evs)"
  obtains (fetch_failed) e where
      "evs = [S3GetObject bucket key (Inl e)]" and "r = Inl e"
  | (drain_failed) body e where
      "evs = [S3GetObject bucket key (Inr body)]" and "streamToString body = Inl e" and "r = Inl e"
  | (parse_failed) body definitionStr e where
      "evs = [S3GetObject bucket key (Inr body)]" and "streamToString body = Inr definitionStr"
      and "JSON_parse E definitionStr = Inl e" and "r = Inl e"
  | (name_missing) body definitionStr definitionJson where
      "evs = [S3GetObject bucket key (Inr body)]" and "streamToString body = Inr definitionStr"
      and "JSON_parse E definitionStr = Inr definitionJson"
      and "falsy (optChain definitionJson ''workflowName'')"
      and "r = Inl (new_Error (missing_workflowName_message key))"
  | (list_failed) body definitionStr definitionJson e where
      "evs = [S3GetObject bucket key (Inr body), ListWorkflows organizationId (Inl e)]"
      and "streamToString body = Inr definitionStr"
      and "JSON_parse E definitionStr = Inr definitionJson"
      and "\<not> falsy (optChain definitionJson ''workflowName'')"
      and "r = Inl e"
  | (find_threw) body definitionStr definitionJson wfs e where
      "evs = [S3GetObject bucket key (Inr body), ListWorkflows organizationId (Inr wfs)]"
      and "streamToString body = Inr definitionStr"
      and "JSON_parse E definitionStr = Inr definitionJson"
      and "\<not> falsy (optChain definitionJson ''workflowName'')"
      and "find_matchingWorkflow E (optChain definitionJson ''workflowName'') wfs = Inl e"
      and "r = Inl e"
  | (create_failed) body definitionStr definitionJson wfs e where
      "evs = [S3GetObject bucket key (Inr body), ListWorkflows organizationId (Inr wfs),
              RegisterWorkflow organizationId (optChain definitionJson ''workflowName'') (Inl e)]"
      and "streamToString body = Inr definitionStr"
      and "JSON_parse E definitionStr = Inr definitionJson"
      and "\<not> falsy (optChain definitionJson ''workflowName'')"
      and "find_matchingWorkflow E (optChain definitionJson ''workflowName'') wfs = Inr None"
      and "r = Inl e"
  | (created) body definitionStr definitionJson wfs wfId w3 evs2 where
      "evs = S3GetObject bucket key (Inr body) # ListWorkflows organizationId (Inr wfs) #
             RegisterWorkflow organizationId (optChain definitionJson ''workflowName'') (Inr wfId) #
             evs2"
      and "streamToString body = Inr definitionStr"
      and "JSON_parse E definitionStr = Inr definitionJson"
      and "\<not> falsy (optChain definitionJson ''workflowName'')"
      and "find_matchingWorkflow E (optChain definitionJson ''workflowName'') wfs = Inr None"
      and "register_and_promote E organizationId definitionStr
             (optChain definitionJson ''workflowName'') wfId w3 = (r, w', evs2)"
  | (matched) body definitionStr definitionJson wfs m w3 evs2 where
      "evs = S3GetObject bucket key (Inr body) # ListWorkflows organizationId (Inr wfs) # evs2"
      and "streamToString body = Inr definitionStr"
      and "JSON_parse E definitionStr = Inr definitionJson"
      and "\<not> falsy (optChain definitionJson ''workflowName'')"
      and "find_matchingWorkflow E (optChain definitionJson ''workflowName'') wfs = Inr (Some m)"
      and "register_and_promote E organizationId definitionStr
             (optChain definitionJson ''workflowName'') (workflowId m) w3 = (r, w', evs2)"
proof -
  from run [unfolded deployWorkflows_body_def] show thesis
  proof (cases rule: awaitE)
    case (thrown e)
    then show thesis
      by (intro fetch_failed) (auto simp: call_def split: prod.splits)
  next
    case fetched: (returned body w1 evs1 rest1)
    from fetched(1) have evs1: "evs1 = [S3GetObject bucket key (Inr body)]"
      by (auto simp: call_def split: prod.splits)
    from fetched(2) show thesis
    proof (cases rule: awaitE)
      case (thrown e)
      with evs1 fetched(3) show thesis
        by (intro drain_failed) (auto simp: pure_def)
    next
      case drained: (returned definitionStr w1a evs1a rest2)
      then have str: "streamToString body = Inr definitionStr" and "evs1a = []" and "w1a = w1"
        by (auto simp: pure_def)
      from drained(2) show thesis
      proof (cases rule: awaitE)
        case (thrown e)
        with evs1 fetched(3) drained(3) str \<open>evs1a = []\<close> show thesis
          by (intro parse_failed) (auto simp: pure_def)
      next
        case parsed: (returned definitionJson w1b evs1b rest3)
        then have js: "JSON_parse E definitionStr = Inr definitionJson" and "evs1b = []"
          by (auto simp: pure_def)
        have evs: "evs = S3GetObject bucket key (Inr body) # rest3"
          using evs1 fetched(3) drained(3) parsed(3) \<open>evs1a = []\<close> \<open>evs1b = []\<close> by simp
        let ?wn = "optChain definitionJson ''workflowName''"
        show thesis
        proof (cases "falsy ?wn")
          case True
          with parsed(2) evs str js show thesis
            by (intro name_missing)
               (auto simp: pure_def Let_def)
        next
          case False
          with parsed(2) have
            "await (call (ListWorkflows organizationId) (api_listWorkflows E organizationId))
               (\<lambda>workflows.
                 await (pure (find_matchingWorkflow E ?wn workflows)) (\<lambda>matchingWorkflow.
                 await (case matchingWorkflow of
                          None \<Rightarrow> call (RegisterWorkflow organizationId ?wn)
                                    (api_registerWorkflow E organizationId ?wn)
                        | Some m \<Rightarrow> pure (Inr (workflowId m))) (\<lambda>wfId.
                 register_and_promote E organizationId definitionStr ?wn wfId))) w1b
             = (r, w', rest3)"
            by (simp add: Let_def)
          then show thesis
          proof (cases rule: awaitE)
            case (thrown e)
            with evs str js False show thesis
              by (intro list_failed)
                 (auto simp: call_def split: prod.splits)
          next
            case listed: (returned wfs w2 evs2 rest4)
            from listed(1) have evs2: "evs2 = [ListWorkflows organizationId (Inr wfs)]"
              by (auto simp: call_def split: prod.splits)
            from listed(2) show thesis
            proof (cases rule: awaitE)
              case (thrown e)
              with evs evs2 listed(3) str js False show thesis
                by (intro find_threw)
                   (auto simp: pure_def)
            next
              case found: (returned matchingWorkflow w2a evs2a rest5)
              then have fm: "find_matchingWorkflow E ?wn wfs = Inr matchingWorkflow"
                and "evs2a = []"
                by (auto simp: pure_def)
              have evs': "evs = S3GetObject bucket key (Inr body) #
                                ListWorkflows organizationId (Inr wfs) # rest5"
                using evs evs2 listed(3) found(3) \<open>evs2a = []\<close> by simp
              from found(2) show thesis
              proof (cases rule: awaitE)
                case (thrown e)
                then have "matchingWorkflow = None"
                  and "rest5 = [RegisterWorkflow organizationId ?wn (Inl e)]"
                  by (auto simp: pure_def call_def split: option.splits prod.splits)
                with evs' str js False fm thrown(2) show thesis
                  by (intro create_failed) auto
              next
                case resolved: (returned wfId w3 evs3 rest6)
                show thesis
                proof (cases matchingWorkflow)
                  case None
                  with resolved(1) have "evs3 = [RegisterWorkflow organizationId ?wn (Inr wfId)]"
                    by (auto simp: call_def split: prod.splits)
                  with evs' str js False fm None resolved(2,3) show thesis
                    by (intro created) auto
                next
                  case (Some m)
                  with resolved(1) have "evs3 = []" and "wfId = workflowId m"
                    by (auto simp: pure_def)
                  with evs' str js False fm Some resolved(2,3) show thesis
                    by (intro matched) auto
                qed
              qed
            qed
          qed
        qed
      qed
    qed
  qed
qed

subsection \<open>Sequential processing\<close>

lemma fetched_keys_append: "fetched_keys (xs @ ys) = fetched_keys xs @ fetched_keys ys"
  by (induction xs rule: fetched_keys.induct) auto

lemma fetched_keys_none: "\<forall>ev \<in> set evs. \<not> is_storage_call ev \<Longrightarrow> fetched_keys evs = []"
  by (induction evs rule: fetched_keys.induct) auto

lemma register_and_promote_no_storage:
  assumes "register_and_promote E organizationId definitionStr workflowName wfId w = (r, w', evs)"
  shows "\<forall>ev \<in> set evs. \<not> is_storage_call ev"
  using assms
proof (cases rule: register_and_promote_cases)
  case (register_failed e)
  from retry_events(1) [OF register_failed(1)] show ?thesis by auto
next
  case (live_failed v w1 revs err)
  from retry_events(1) [OF live_failed(1)] live_failed(2) show ?thesis by auto
next
  case (already_live v w1 revs)
  from retry_events(1) [OF already_live(1)] already_live(2) show ?thesis by auto
next
  case (promoted v w1 revs lres)
  from retry_events(1) [OF promoted(1)] promoted(2) show ?thesis by auto
qed

lemma deployWorkflows_body_fetched_keys:
  assumes "deployWorkflows_body E organizationId bucket key w = (r, w', evs)"
  shows "fetched_keys evs = [key]"
  using assms
proof (cases rule: deployWorkflows_body_cases)
  case (created body definitionStr definitionJson wfs wfId w3 evs2)
  from register_and_promote_no_storage [OF created(6)] created(1) show ?thesis
    by (simp add: fetched_keys_none)
next
  case (matched body definitionStr definitionJson wfs m w3 evs2)
  from register_and_promote_no_storage [OF matched(6)] matched(1) show ?thesis
    by (simp add: fetched_keys_none)
qed auto

lemma deployWorkflows_append:
  "deployWorkflows E organizationId bucket (xs @ ys) w =
     (case deployWorkflows E organizationId bucket xs w of
        (Inl err, w1, evs) \<Rightarrow> (Inl err, w1, evs)
      | (Inr u, w1, evs) \<Rightarrow>
          (case deployWorkflows E organizationId bucket ys w1 of
             (r, w2, evs') \<Rightarrow> (r, w2, evs @ evs')))"
  by (induction xs arbitrary: w) (auto split: prod.splits sum.splits)

lemma deployWorkflows_fetched_keys:
  "deployWorkflows E organizationId bucket keys w = (Inr u, w', evs) \<Longrightarrow> fetched_keys evs = keys"
proof (induction keys arbitrary: w w' evs)
  case Nil
  then show ?case by simp
next
  case (Cons key keys)
  obtain r1 w1 evs1 where body: "deployWorkflows_body E organizationId bucket key w = (r1, w1, evs1)"
    by (cases "deployWorkflows_body E organizationId bucket key w")
  obtain r2 w2 evs2 where rest: "deployWorkflows E organizationId bucket keys w1 = (r2, w2, evs2)"
    by (cases "deployWorkflows E organizationId bucket keys w1")
  from Cons.prems body rest have "r1 = Inr ()" and "r2 = Inr u" and "evs = evs1 @ evs2"
    by (auto split: sum.splits)
  with Cons.IH [of w1 w2 evs2] rest deployWorkflows_body_fetched_keys [OF body] show ?case
    by (simp add: fetched_keys_append)
qed

text \<open>
  Claim C3. Let the keys \<open>done\<close> have been processed without error, leaving the world \<open>w1\<close>
  and the log \<open>evs1\<close>, and let the loop body throw \<open>err\<close> on the next key, having logged
  \<open>evs2\<close>. Then \<^verbatim>\<open>deployWorkflows\<close> on \<open>done\<close>, that key and any further keys \<open>rest\<close> throws
  \<open>err\<close>; its log is \<open>evs1\<close> followed by \<open>evs2\<close> and nothing else, so that no call is made
  for a key of \<open>rest\<close> and none that would undo the effects for \<open>done\<close>; the world is the one
  the failing body left; and the objects fetched from storage are those of \<open>done\<close> and of the
  failing key, once each and in the input order.
\<close>

theorem sequential_abort:
  assumes before: "deployWorkflows E organizationId bucket done w = (Inr (), w1, evs1)"
    and failing: "deployWorkflows_body E organizationId bucket key w1 = (Inl err, w2, evs2)"
  shows "deployWorkflows E organizationId bucket (done @ key # rest) w = (Inl err, w2, evs1 @ evs2) \<and>
         fetched_keys (evs1 @ evs2) = done @ [key]"
  using assms deployWorkflows_fetched_keys [OF before] deployWorkflows_body_fetched_keys [OF failing]
  by (simp add: deployWorkflows_append fetched_keys_append)

text \<open>
  The definitions a concrete run unfolds. The equation of the retry loop is applied only
  where the attempt number is a numeral.
\<close>

lemmas sim_defs = sim_env_def sim_default_def sim_start_def service_error_def
lemmas run_defs = deployWorkflows_body_def register_and_promote_def read_live_def
  registerWorkflowVersionWithRetry_def registerWorkflowVersionWithRetry_loop.simps
  DEFAULT_REGISTER_ATTEMPTS_def DEFAULT_REGISTER_BASE_DELAY_MS_def parseNumberEnv_def
  await_def call_def pure_def streamToString_def optChain_def
  workflowName_toUpperCase_def noLiveVersionFound_def message_includes_def new_Error_def
  new_TypeError_def Let_def

text \<open>
  On the three objects: \<^verbatim>\<open>a.json\<close> is deployed (workflow created, version registered and
  promoted), \<^verbatim>\<open>b.json\<close> is fetched and fails to parse, \<^verbatim>\<open>c.json\<close> is never fetched.
\<close>

lemma alpha_body_run:
  "deployWorkflows_body (sim_env abort_cfg) ''org'' ''bucket'' ''a.json'' sim_start =
     (Inr (), after_alpha, alpha_events)"
  by (simp add: abort_cfg_def after_alpha_def alpha_events_def sim_defs run_defs)

lemma alpha_run:
  "deployWorkflows (sim_env abort_cfg) ''org'' ''bucket'' [''a.json''] sim_start =
     (Inr (), after_alpha, alpha_events)"
  by (simp add: abort_cfg_def after_alpha_def alpha_events_def sim_defs run_defs)

lemma beta_run:
  "deployWorkflows_body (sim_env abort_cfg) ''org'' ''bucket'' ''b.json'' after_alpha =
     (Inl (new_Error ''Unexpected token in JSON''), after_alpha,
      [S3GetObject ''bucket'' ''b.json'' (Inr (Stream [''B''] None))])"
  by (simp add: abort_cfg_def after_alpha_def alpha_events_def sim_defs run_defs)

theorem sequential_abort_witness:
  "deployWorkflows (sim_env abort_cfg) ''org'' ''bucket'' [''a.json'', ''b.json'', ''c.json'']
     sim_start =
     (Inl (new_Error ''Unexpected token in JSON''), after_alpha,
      alpha_events @ [S3GetObject ''bucket'' ''b.json'' (Inr (Stream [''B''] None))]) \<and>
   fetched_keys (alpha_events @ [S3GetObject ''bucket'' ''b.json'' (Inr (Stream [''B''] None))]) =
     [''a.json'', ''b.json'']"
  using sequential_abort [OF alpha_run beta_run, of "[''c.json'']"]
  by simp

subsection \<open>Malformed definitions\<close>

lemma body_rejects_malformed:
  assumes fetch: "s3_send E bucket key w = (Inr body, w1)"
    and drained: "streamToString body = Inr definitionStr"
    and bad: "(\<exists>e. JSON_parse E definitionStr = Inl e) \<or>
              (\<exists>j. JSON_parse E definitionStr = Inr j \<and> falsy (optChain j ''workflowName''))"
  shows "deployWorkflows_body E organizationId bucket key w =
           (Inl (case JSON_parse E definitionStr of
                   Inl e \<Rightarrow> e
                 | Inr j \<Rightarrow> new_Error (missing_workflowName_message key)),
            w1, [S3GetObject bucket key (Inr body)])"
  using assms
  by (auto simp: deployWorkflows_body_def await_call await_pure Let_def pure_def)

text \<open>
  Claim C8, as amended. After a prefix \<open>done\<close> of keys processed without error, let the
  object of the next key be fetched and drained to the text \<open>definitionStr\<close>. If that text
  does not parse as JSON, or the \<^verbatim>\<open>workflowName\<close> of the parsed value is falsy (absent, null,
  false, 0 or the empty string; absent in particular when the parsed value is not an
  object), then \<^verbatim>\<open>deployWorkflows\<close> throws at once, the parse error or the
  missing-\<^verbatim>\<open>workflowName\<close> error; the only call logged for the key is its fetch from
  storage, and no further key is processed.
\<close>

theorem malformed_definition_aborts:
  assumes before: "deployWorkflows E organizationId bucket done w0 = (Inr (), w, evs0)"
    and fetch: "s3_send E bucket key w = (Inr body, w1)"
    and drained: "streamToString body = Inr definitionStr"
    and bad: "(\<exists>e. JSON_parse E definitionStr = Inl e) \<or>
              (\<exists>j. JSON_parse E definitionStr = Inr j \<and> falsy (optChain j ''workflowName''))"
  shows "deployWorkflows E organizationId bucket (done @ key # rest) w0 =
           (Inl (case JSON_parse E definitionStr of
                   Inl e \<Rightarrow> e
                 | Inr j \<Rightarrow> new_Error (missing_workflowName_message key)),
            w1, evs0 @ [S3GetObject bucket key (Inr body)])"
  using before body_rejects_malformed [OF fetch drained bad, of organizationId]
  by (simp add: deployWorkflows_append)

text \<open>The object without a \<^verbatim>\<open>workflowName\<close>: one storage fetch, then the error.\<close>

theorem malformed_definition_aborts_witness:
  "falsy (optChain (JObj PlainObject [(''steps'', JArr [])]) ''workflowName'') \<and>
   deployWorkflows (sim_env malformed_cfg) ''org'' ''bucket'' [''m.json'', ''n.json''] sim_start =
     (Inl (new_Error (missing_workflowName_message ''m.json'')), sim_start,
      [S3GetObject ''bucket'' ''m.json'' (Inr (Stream [''M''] None))])"
  using malformed_definition_aborts [of "sim_env malformed_cfg" "''org''" "''bucket''" "[]"
      sim_start sim_start "[]" "''m.json''" "Stream [''M''] None" sim_start "''M''" "[''n.json'']"]
  by (simp add: malformed_cfg_def sim_defs streamToString_def optChain_def)

text \<open>
  The claim as stated, for every parsed value without a non-empty \<^verbatim>\<open>workflowName\<close> string,
  fails on the object whose \<^verbatim>\<open>workflowName\<close> is the number 5: the truthiness check lets it
  pass, and the registry is called, first to list the workflows, then to create one.
\<close>

theorem workflowName_not_a_string_counterexample:
  "JSON_parse (sim_env malformed_cfg) ''N'' = Inr (JObj PlainObject [(''workflowName'', JNum 5)]) \<and>
   deployWorkflows (sim_env malformed_cfg) ''org'' ''bucket'' [''n.json''] sim_start =
     (Inl (service_error ''ValidationError'' 400 ''name must be a string''), sim_start,
      [S3GetObject ''bucket'' ''n.json'' (Inr (Stream [''N''] None)),
       ListWorkflows ''org'' (Inr []),
       RegisterWorkflow ''org'' (JNum 5)
         (Inl (service_error ''ValidationError'' 400 ''name must be a string''))]) \<and>
   is_registry_call (ListWorkflows ''org'' (Inr []))"
  by (simp add: malformed_cfg_def sim_defs run_defs)

subsection \<open>What the second part of the loop body logs\<close>

lemma register_and_promote_events:
  assumes "register_and_promote E organizationId definitionStr workflowName wfId w = (r, w', evs)"
  shows "(\<forall>ev \<in> set evs.
           (\<exists>res. ev = RegisterWorkflowVersion
              \<lparr>in_organizationId = organizationId, in_workflowId = wfId,
               in_definition = definitionStr\<rparr> res) \<or>
           (\<exists>d. ev = Sleep d) \<or>
           (\<exists>res. ev = GetTaggedWorkflowVersion organizationId wfId ''$LIVE'' res) \<or>
           (\<exists>v res. ev = SetWorkflowVersionTag organizationId wfId ''$LIVE'' v res)) \<and>
         (\<exists>res. RegisterWorkflowVersion
              \<lparr>in_organizationId = organizationId, in_workflowId = wfId,
               in_definition = definitionStr\<rparr> res \<in> set evs)"
  using assms
proof (cases rule: register_and_promote_cases)
  case (register_failed e)
  from retry_events(1) [OF register_failed(1)] retry_attempted [OF register_failed(1)]
  show ?thesis by auto
next
  case (live_failed v w1 revs err)
  from retry_events(1) [OF live_failed(1)] retry_attempted [OF live_failed(1)] live_failed(2)
  show ?thesis by auto
next
  case (already_live v w1 revs)
  from retry_events(1) [OF already_live(1)] retry_attempted [OF already_live(1)] already_live(2)
  show ?thesis by auto
next
  case (promoted v w1 revs lres)
  from retry_events(1) [OF promoted(1)] retry_attempted [OF promoted(1)] promoted(2)
  show ?thesis by auto
qed

lemma register_and_promote_log:
  assumes run: "register_and_promote E organizationId definitionStr workflowName wfId w = (r, w', evs)"
  shows "S3GetObject b k sres \<notin> set evs"
    and "ListWorkflows org lres \<notin> set evs"
    and "RegisterWorkflow org nm cres \<notin> set evs"
    and "RegisterWorkflowVersion payload res \<in> set evs \<Longrightarrow> in_workflowId payload = wfId"
    and "\<exists>res. RegisterWorkflowVersion
              \<lparr>in_organizationId = organizationId, in_workflowId = wfId,
               in_definition = definitionStr\<rparr> res \<in> set evs"
proof -
  note ev = register_and_promote_events [OF run]
  from ev [THEN conjunct1, THEN bspec, of "S3GetObject b k sres"]
  show "S3GetObject b k sres \<notin> set evs" by auto
  from ev [THEN conjunct1, THEN bspec, of "ListWorkflows org lres"]
  show "ListWorkflows org lres \<notin> set evs" by auto
  from ev [THEN conjunct1, THEN bspec, of "RegisterWorkflow org nm cres"]
  show "RegisterWorkflow org nm cres \<notin> set evs" by auto
  from ev [THEN conjunct1, THEN bspec, of "RegisterWorkflowVersion payload res"]
  show "RegisterWorkflowVersion payload res \<in> set evs \<Longrightarrow> in_workflowId payload = wfId" by auto
  from ev show "\<exists>res. RegisterWorkflowVersion
              \<lparr>in_organizationId = organizationId, in_workflowId = wfId,
               in_definition = definitionStr\<rparr> res \<in> set evs" by simp
qed

lemma no_RegisterWorkflow_filter:
  "(\<And>org nm cres. RegisterWorkflow org nm cres \<notin> set evs) \<Longrightarrow> filter is_RegisterWorkflow evs = []"
  by (induction evs rule: fetched_keys.induct) (auto simp: filter_empty_conv)

subsection \<open>Find or create\<close>

text \<open>
  Claim C9. Consider a run of the loop body on a key whose object was fetched and parsed to
  a value with the string \<open>n\<close> as \<^verbatim>\<open>workflowName\<close>, and in which \<^verbatim>\<open>listWorkflows\<close> returned
  \<open>wfs\<close>. If some workflow of \<open>wfs\<close> has a name equal to \<open>n\<close> after \<^verbatim>\<open>toUpperCase\<close> on both,
  then \<^verbatim>\<open>registerWorkflow\<close> is not called, and the version is registered, in every attempt,
  under the \<^verbatim>\<open>workflowId\<close> of the first such workflow. If none has, \<^verbatim>\<open>registerWorkflow\<close> is
  called exactly once, with the name \<open>n\<close>, and when it returns an id the version is
  registered, in every attempt, under that id.
\<close>

theorem find_or_create:
  assumes run: "deployWorkflows_body E organizationId bucket key w = (r, w', evs)"
    and fetched: "S3GetObject bucket key (Inr body) \<in> set evs"
    and drained: "streamToString body = Inr definitionStr"
    and parsed: "JSON_parse E definitionStr = Inr definitionJson"
    and nm: "optChain definitionJson ''workflowName'' = JStr n"
    and listed: "ListWorkflows organizationId (Inr wfs) \<in> set evs"
  shows "case find (\<lambda>w. toUpperCase E (name w) = toUpperCase E n) wfs of
           Some m \<Rightarrow>
             (\<forall>ev \<in> set evs. \<not> is_RegisterWorkflow ev) \<and>
             (\<exists>res. RegisterWorkflowVersion
                      \<lparr>in_organizationId = organizationId, in_workflowId = workflowId m,
                       in_definition = definitionStr\<rparr> res \<in> set evs) \<and>
             (\<forall>payload res. RegisterWorkflowVersion payload res \<in> set evs \<longrightarrow>
                in_workflowId payload = workflowId m)
         | None \<Rightarrow>
             (\<exists>created. filter is_RegisterWorkflow evs =
                          [RegisterWorkflow organizationId (JStr n) created] \<and>
                (\<forall>wfId. created = Inr wfId \<longrightarrow>
                   (\<exists>res. RegisterWorkflowVersion
                      \<lparr>in_organizationId = organizationId, in_workflowId = wfId,
                       in_definition = definitionStr\<rparr> res \<in> set evs) \<and>
                   (\<forall>payload res. RegisterWorkflowVersion payload res \<in> set evs \<longrightarrow>
                      in_workflowId payload = wfId)))"
  using run
proof (cases rule: deployWorkflows_body_cases)
  case (fetch_failed e)
  with fetched show ?thesis by simp
next
  case (drain_failed body e)
  with listed show ?thesis by simp
next
  case (parse_failed body definitionStr e)
  with listed show ?thesis by simp
next
  case (name_missing body definitionStr definitionJson)
  with listed show ?thesis by simp
next
  case (list_failed body definitionStr definitionJson e)
  with listed show ?thesis by simp
next
  case (find_threw body' definitionStr' definitionJson' wfs' e)
  with fetched drained parsed nm show ?thesis
    by (simp add: find_matchingWorkflow_string)
next
  case (create_failed body' definitionStr' definitionJson' wfs' e)
  from create_failed(1) fetched have "body' = body" by simp
  with create_failed drained parsed nm
  have same: "definitionStr' = definitionStr" "definitionJson' = definitionJson" by auto
  from create_failed(1) listed have "wfs' = wfs" by simp
  with create_failed(5) same nm
  have none: "find (\<lambda>w. toUpperCase E (name w) = toUpperCase E n) wfs = None"
    by (simp add: find_matchingWorkflow_string)
  from create_failed(1) same nm
  have "filter is_RegisterWorkflow evs = [RegisterWorkflow organizationId (JStr n) (Inl e)]"
    by simp
  with none show ?thesis by simp
next
  case (created body' definitionStr' definitionJson' wfs' wfId w3 evs2)
  note lg = register_and_promote_log [OF created(6)]
  from created(1) fetched lg(1) have "body' = body" by simp
  with created drained parsed nm
  have same: "definitionStr' = definitionStr" "definitionJson' = definitionJson" by auto
  from created(1) listed lg(2) have "wfs' = wfs" by simp
  with created(5) same nm
  have none: "find (\<lambda>w. toUpperCase E (name w) = toUpperCase E n) wfs = None"
    by (simp add: find_matchingWorkflow_string)
  have "filter is_RegisterWorkflow evs2 = []"
    by (rule no_RegisterWorkflow_filter) (rule lg(3))
  with created(1) same nm
  have one: "filter is_RegisterWorkflow evs =
               [RegisterWorkflow organizationId (JStr n) (Inr wfId)]"
    by simp
  have used: "\<exists>res. RegisterWorkflowVersion
                \<lparr>in_organizationId = organizationId, in_workflowId = wfId,
                 in_definition = definitionStr\<rparr> res \<in> set evs"
    using lg(5) created(1) same by auto
  have only: "\<forall>payload res. RegisterWorkflowVersion payload res \<in> set evs \<longrightarrow>
                in_workflowId payload = wfId"
    using lg(4) created(1) by auto
  from none one used only show ?thesis by simp
next
  case (matched body' definitionStr' definitionJson' wfs' m w3 evs2)
  note lg = register_and_promote_log [OF matched(6)]
  from matched(1) fetched lg(1) have "body' = body" by simp
  with matched drained parsed nm
  have same: "definitionStr' = definitionStr" "definitionJson' = definitionJson" by auto
  from matched(1) listed lg(2) have "wfs' = wfs" by simp
  with matched(5) same nm
  have some: "find (\<lambda>w. toUpperCase E (name w) = toUpperCase E n) wfs = Some m"
    by (simp add: find_matchingWorkflow_string)
  have nocreate: "\<forall>ev \<in> set evs. \<not> is_RegisterWorkflow ev"
    using no_RegisterWorkflow_filter [of evs2, OF lg(3)] matched(1)
    by (simp add: filter_empty_conv)
  have used: "\<exists>res. RegisterWorkflowVersion
                \<lparr>in_organizationId = organizationId, in_workflowId = workflowId m,
                 in_definition = definitionStr\<rparr> res \<in> set evs"
    using lg(5) matched(1) same by auto
  have only: "\<forall>payload res. RegisterWorkflowVersion payload res \<in> set evs \<longrightarrow>
                in_workflowId payload = workflowId m"
    using lg(4) matched(1) by auto
  from some nocreate used only show ?thesis by simp
qed

text \<open>
  The object names \<^verbatim>\<open>billing\<close>, the registry has \<^verbatim>\<open>Billing\<close>: no workflow is created, and the
  version is registered under the id of \<^verbatim>\<open>Billing\<close>. In the run of \<^verbatim>\<open>a.json\<close> on the empty
  registry, the workflow \<^verbatim>\<open>alpha\<close> is created, once.
\<close>

lemma ascii_toUpperCase_billing:
  "ascii_toUpperCase ''billing'' = ''BILLING''" "ascii_toUpperCase ''Billing'' = ''BILLING''"
  by (simp_all add: ascii_toUpperCase_def)

lemma billing_run:
  "deployWorkflows_body (sim_env billing_cfg) ''org'' ''bucket'' ''bill.json'' billing_start =
     (Inr (), billing_done, billing_events)"
  by (simp add: billing_cfg_def billing_start_def billing_events_def billing_done_def
      sim_defs run_defs ascii_toUpperCase_billing)

theorem find_or_create_witness:
  "deployWorkflows_body (sim_env billing_cfg) ''org'' ''bucket'' ''bill.json'' billing_start =
     (Inr (), billing_done, billing_events) \<and>
   find (\<lambda>w. toUpperCase (sim_env billing_cfg) (name w) = toUpperCase (sim_env billing_cfg) ''billing'')
     [\<lparr>workflowId = ''wf-7'', name = ''Billing''\<rparr>] = Some \<lparr>workflowId = ''wf-7'', name = ''Billing''\<rparr> \<and>
   filter is_RegisterWorkflow billing_events = [] \<and>
   RegisterWorkflowVersion
     \<lparr>in_organizationId = ''org'', in_workflowId = ''wf-7'', in_definition = ''D''\<rparr>
     (Inr ''wf-7#D'') \<in> set billing_events \<and>
   filter is_RegisterWorkflow alpha_events =
     [RegisterWorkflow ''org'' (JStr ''alpha'') (Inr ''wf-alpha'')]"
  using find_or_create [OF billing_run, of "Stream [''D''] None" "''D''"
      "JObj PlainObject [(''workflowName'', JStr ''billing'')]" "''billing''"
      "[\<lparr>workflowId = ''wf-7'', name = ''Billing''\<rparr>]"]
    find_or_create [OF alpha_body_run, of "Stream [''A''] None" "''A''"
      "JObj PlainObject [(''workflowName'', JStr ''alpha'')]" "''alpha''" "[]"]
    billing_run
  by (simp add: billing_events_def billing_cfg_def alpha_events_def abort_cfg_def sim_defs
      streamToString_def optChain_def ascii_toUpperCase_billing)

subsection \<open>Reading the live version\<close>

lemma deployWorkflows_body_split:
  assumes run: "deployWorkflows_body E organizationId bucket key w = (r, w', evs)"
  shows "(\<forall>ev \<in> set evs. is_resolution_call ev) \<or>
         (\<exists>pre definitionStr workflowName wfId w3 evs2.
            evs = pre @ evs2 \<and> (\<forall>ev \<in> set pre. is_resolution_call ev) \<and>
            register_and_promote E organizationId definitionStr workflowName wfId w3 = (r, w', evs2))"
  using run
proof (cases rule: deployWorkflows_body_cases)
  case (created body definitionStr definitionJson wfs wfId w3 evs2)
  have "evs = [S3GetObject bucket key (Inr body), ListWorkflows organizationId (Inr wfs),
               RegisterWorkflow organizationId (optChain definitionJson ''workflowName'') (Inr wfId)]
              @ evs2"
    using created(1) by simp
  moreover have "\<forall>ev \<in> set [S3GetObject bucket key (Inr body), ListWorkflows organizationId (Inr wfs),
               RegisterWorkflow organizationId (optChain definitionJson ''workflowName'') (Inr wfId)].
               is_resolution_call ev"
    by simp
  ultimately show ?thesis using created(6) by blast
next
  case (matched body definitionStr definitionJson wfs m w3 evs2)
  have "evs = [S3GetObject bucket key (Inr body), ListWorkflows organizationId (Inr wfs)] @ evs2"
    using matched(1) by simp
  moreover have "\<forall>ev \<in> set [S3GetObject bucket key (Inr body),
                               ListWorkflows organizationId (Inr wfs)]. is_resolution_call ev"
    by simp
  ultimately show ?thesis using matched(6) by blast
qed auto

lemma noLiveVersionFound_True:
  assumes "optChain err ''errorType'' = JStr ''NotFoundError'' \<or>
           (\<exists>m. optChain err ''message'' = JStr m \<and>
                (str_includes m ''No version tagged'' \<or> str_includes m ''No version found''))"
  shows "noLiveVersionFound err = Inr True"
  using assms by (auto simp: noLiveVersionFound_def message_includes_def split: bool.splits)

lemma noLiveVersionFound_False:
  assumes "optChain err ''errorType'' \<noteq> JStr ''NotFoundError''"
    and "optChain err ''message'' = JUndefined \<or> optChain err ''message'' = JNull \<or>
           (\<exists>m. optChain err ''message'' = JStr m \<and>
                \<not> str_includes m ''No version tagged'' \<and> \<not> str_includes m ''No version found'')"
  shows "noLiveVersionFound err = Inr False"
  using assms by (auto simp: noLiveVersionFound_def message_includes_def split: bool.splits)

lemma retry_log:
  assumes "registerWorkflowVersionWithRetry E payload workflowName w = (r, w', evs)"
  shows "GetTaggedWorkflowVersion org wid tg res \<notin> set evs"
    and "SetWorkflowVersionTag org wid tg v sres \<notin> set evs"
  using retry_events(1) [OF assms, THEN bspec, of "GetTaggedWorkflowVersion org wid tg res"]
    retry_events(1) [OF assms, THEN bspec, of "SetWorkflowVersionTag org wid tg v sres"]
  by auto

lemma resolution_log:
  assumes "\<forall>ev \<in> set pre. is_resolution_call ev"
  shows "GetTaggedWorkflowVersion org wid tg res \<notin> set pre"
    and "SetWorkflowVersionTag org wid tg v sres \<notin> set pre"
    and "RegisterWorkflowVersion payload rres \<notin> set pre"
  using assms by auto

text \<open>
  Claim C7, as amended. Consider a run of the loop body in which the read of the live
  version threw \<open>err\<close>. If the \<^verbatim>\<open>errorType\<close> of \<open>err\<close> is \<^verbatim>\<open>NotFoundError\<close>, or its message is a
  string containing \<^verbatim>\<open>No version tagged\<close> or \<^verbatim>\<open>No version found\<close>, the live version counts as
  null and the run goes on to the promotion: a version was registered, and the last call is
  \<^verbatim>\<open>setWorkflowVersionTag\<close> with its id, whose outcome is the outcome of the body. If the
  \<^verbatim>\<open>errorType\<close> is another one and the message is absent, null, or a string containing
  neither text, the body throws \<open>err\<close> itself right after the read, and \<^verbatim>\<open>deployWorkflows\<close>
  throws it without processing the remaining keys.
\<close>

theorem live_read_error_handling:
  assumes run: "deployWorkflows_body E organizationId bucket key w = (r, w', evs)"
    and thrown: "GetTaggedWorkflowVersion org wid tg (Inl err) \<in> set evs"
  shows "((optChain err ''errorType'' = JStr ''NotFoundError'' \<or>
           (\<exists>m. optChain err ''message'' = JStr m \<and>
                (str_includes m ''No version tagged'' \<or> str_includes m ''No version found''))) \<longrightarrow>
          (\<exists>payload v. RegisterWorkflowVersion payload (Inr v) \<in> set evs \<and>
             last evs = SetWorkflowVersionTag organizationId (in_workflowId payload) ''$LIVE'' v r)) \<and>
         ((optChain err ''errorType'' \<noteq> JStr ''NotFoundError'' \<and>
           (optChain err ''message'' = JUndefined \<or> optChain err ''message'' = JNull \<or>
            (\<exists>m. optChain err ''message'' = JStr m \<and>
                 \<not> str_includes m ''No version tagged'' \<and> \<not> str_includes m ''No version found''))) \<longrightarrow>
          r = Inl err \<and> last evs = GetTaggedWorkflowVersion org wid tg (Inl err) \<and>
          deployWorkflows E organizationId bucket (key # rest) w = (Inl err, w', evs))"
    (is "(?found \<longrightarrow> ?promote) \<and> (?other \<longrightarrow> ?abort)")
proof -
  from deployWorkflows_body_split [OF run] thrown
  obtain pre definitionStr workflowName wfId w3 evs2 where
    evs: "evs = pre @ evs2" and pre: "\<forall>ev \<in> set pre. is_resolution_call ev"
    and rp: "register_and_promote E organizationId definitionStr workflowName wfId w3 = (r, w', evs2)"
    by fastforce
  let ?payload = "\<lparr>in_organizationId = organizationId, in_workflowId = wfId,
                   in_definition = definitionStr\<rparr>"
  from thrown evs resolution_log(1) [OF pre]
  have in2: "GetTaggedWorkflowVersion org wid tg (Inl err) \<in> set evs2"
    by auto
  from rp show ?thesis
  proof (cases rule: register_and_promote_cases)
    case (register_failed e)
    from in2 retry_log(1) [OF register_failed(1), of org wid tg "Inl err"] show ?thesis by simp
  next
    case (already_live v w1 revs)
    with in2 retry_log(1) [OF already_live(1)] show ?thesis by auto
  next
    case (live_failed v w1 revs err')
    from in2 live_failed(2) retry_log(1) [OF live_failed(1)]
    have same: "err' = err" "org = organizationId" "wid = wfId" "tg = ''$LIVE''"
      by auto
    have a: "?found \<longrightarrow> ?promote"
      using live_failed(3) same noLiveVersionFound_True [of err] by blast
    have b: "?other \<longrightarrow> ?abort"
    proof
      assume ?other
      then have "noLiveVersionFound err = Inr False"
        by (intro noLiveVersionFound_False) auto
      with live_failed(4) same have r: "r = Inl err" by simp
      moreover have "last evs = GetTaggedWorkflowVersion org wid tg (Inl err)"
        using evs live_failed(2) same by simp
      moreover have "deployWorkflows E organizationId bucket (key # rest) w = (Inl err, w', evs)"
        using run r by simp
      ultimately show ?abort by simp
    qed
    from a b show ?thesis ..
  next
    case (promoted v w1 revs lres)
    from in2 promoted(2) retry_log(1) [OF promoted(1)]
    have lres: "lres = Inl err" by auto
    with promoted(3) have nl: "noLiveVersionFound err = Inr True" by simp
    have reg: "RegisterWorkflowVersion ?payload (Inr v) \<in> set evs"
      using retry_events(2) [OF promoted(1) refl] promoted(2) evs
      by (metis Un_iff last_in_set set_append)
    have "last evs = SetWorkflowVersionTag organizationId (in_workflowId ?payload) ''$LIVE'' v r"
      using evs promoted(2) by simp
    with reg have a: "?found \<longrightarrow> ?promote" by blast
    have b: "?other \<longrightarrow> ?abort"
    proof
      assume ?other
      then have "noLiveVersionFound err = Inr False"
        by (intro noLiveVersionFound_False) auto
      with nl show ?abort by simp
    qed
    from a b show ?thesis ..
  qed
qed

text \<open>
  With \<^verbatim>\<open>NotFoundError\<close> from the read, the run of \<^verbatim>\<open>a.json\<close> ends with the promotion; with
  an access error from the read, \<^verbatim>\<open>deployWorkflows\<close> throws that error after the read and
  \<^verbatim>\<open>b.json\<close> is not fetched.
\<close>

lemma denied_body_run:
  "deployWorkflows_body (sim_env tag_denied_cfg) ''org'' ''bucket'' ''a.json'' sim_start =
     (Inl (service_error ''AccessDeniedError'' 403 ''not allowed''), alpha_registered,
      alpha_events_until (service_error ''AccessDeniedError'' 403 ''not allowed''))"
  by (simp add: tag_denied_cfg_def abort_cfg_def alpha_registered_def alpha_events_until_def
      sim_defs run_defs)

theorem live_read_error_handling_witness:
  "optChain (service_error ''NotFoundError'' 404 ''No version tagged $LIVE'') ''errorType'' =
     JStr ''NotFoundError'' \<and>
   last alpha_events =
     SetWorkflowVersionTag ''org'' ''wf-alpha'' ''$LIVE'' ''wf-alpha#A'' (Inr ()) \<and>
   deployWorkflows (sim_env tag_denied_cfg) ''org'' ''bucket'' [''a.json'', ''b.json''] sim_start =
     (Inl (service_error ''AccessDeniedError'' 403 ''not allowed''), alpha_registered,
      alpha_events_until (service_error ''AccessDeniedError'' 403 ''not allowed''))"
  using live_read_error_handling [OF alpha_body_run, of "''org''" "''wf-alpha''" "''$LIVE''"
      "service_error ''NotFoundError'' 404 ''No version tagged $LIVE''" "[]"]
    live_read_error_handling [OF denied_body_run, of "''org''" "''wf-alpha''" "''$LIVE''"
      "service_error ''AccessDeniedError'' 403 ''not allowed''" "[''b.json'']"]
  by (simp add: alpha_events_def alpha_events_until_def service_error_def optChain_def)

text \<open>
  The claim as stated, with every error other than the not-found one propagating, fails on
  an error of type \<^verbatim>\<open>InternalServerError\<close> whose message contains \<^verbatim>\<open>No version found\<close>: it is
  treated as null, the version is promoted and the batch succeeds.
\<close>

theorem live_read_message_match_counterexample:
  "optChain (service_error ''InternalServerError'' 500 ''No version found in replica'') ''errorType''
     = JStr ''InternalServerError'' \<and>
   deployWorkflows (sim_env tag_internal_cfg) ''org'' ''bucket'' [''a.json''] sim_start =
     (Inr (), after_alpha,
      alpha_events_until (service_error ''InternalServerError'' 500 ''No version found in replica'') @
      [SetWorkflowVersionTag ''org'' ''wf-alpha'' ''$LIVE'' ''wf-alpha#A'' (Inr ())])"
  by (simp add: tag_internal_cfg_def abort_cfg_def after_alpha_def alpha_events_until_def
      sim_defs run_defs)

subsection \<open>Promotion\<close>

lemma no_SetWorkflowVersionTag_filter:
  assumes "\<And>org wid tg v sres. SetWorkflowVersionTag org wid tg v sres \<notin> set evs"
  shows "filter is_SetWorkflowVersionTag evs = []"
proof -
  have "\<forall>ev \<in> set evs. \<not> is_SetWorkflowVersionTag ev"
  proof
    fix ev
    assume "ev \<in> set evs"
    with assms show "\<not> is_SetWorkflowVersionTag ev" by (cases ev) auto
  qed
  then show ?thesis by (simp add: filter_empty_conv)
qed

lemma live_tag_was_set_filter:
  "filter live_tag_was_set evs = filter live_tag_was_set (filter is_SetWorkflowVersionTag evs)"
  by (induction evs rule: fetched_keys.induct) (auto elim: live_tag_was_set.elims)

lemma retry_registered:
  assumes "registerWorkflowVersionWithRetry E payload workflowName w = (r, w', evs)"
    and "RegisterWorkflowVersion payload' res \<in> set evs"
  shows "payload' = payload" and "res = Inr v \<Longrightarrow> r = Inr v"
proof -
  from retry_events(1) [OF assms(1), THEN bspec, OF assms(2)]
  show p: "payload' = payload" by auto
  assume "res = Inr v"
  with assms(2) p retry_events(3) [OF assms(1), of v] show "r = Inr v" by simp
qed

lemma deployWorkflows_body_promotion:
  assumes run: "deployWorkflows_body E organizationId bucket key w = (r, w', evs)"
    and registered: "RegisterWorkflowVersion payload (Inr v) \<in> set evs"
    and read: "GetTaggedWorkflowVersion org wid tg lres \<in> set evs"
  shows "(lres = Inr v \<longrightarrow>
            r = Inr () \<and> filter is_SetWorkflowVersionTag evs = []) \<and>
         ((\<exists>l. lres = Inr l \<and> l \<noteq> v) \<or>
          (\<exists>err. lres = Inl err \<and> noLiveVersionFound err = Inr True) \<longrightarrow>
            filter is_SetWorkflowVersionTag evs =
              [SetWorkflowVersionTag organizationId (in_workflowId payload) ''$LIVE'' v r])"
proof -
  from deployWorkflows_body_split [OF run] read
  obtain pre definitionStr workflowName wfId w3 evs2 where
    evs: "evs = pre @ evs2" and pre: "\<forall>ev \<in> set pre. is_resolution_call ev"
    and rp: "register_and_promote E organizationId definitionStr workflowName wfId w3 = (r, w', evs2)"
    by fastforce
  let ?payload = "\<lparr>in_organizationId = organizationId, in_workflowId = wfId,
                   in_definition = definitionStr\<rparr>"
  from read evs resolution_log(1) [OF pre]
  have read2: "GetTaggedWorkflowVersion org wid tg lres \<in> set evs2" by auto
  from registered evs resolution_log(3) [OF pre]
  have reg2: "RegisterWorkflowVersion payload (Inr v) \<in> set evs2" by auto
  have pre_none: "filter is_SetWorkflowVersionTag pre = []"
    by (rule no_SetWorkflowVersionTag_filter) (rule resolution_log(2) [OF pre])
  from rp show ?thesis
  proof (cases rule: register_and_promote_cases)
    case (register_failed e)
    from read2 retry_log(1) [OF register_failed(1), of org wid tg lres] show ?thesis by simp
  next
    case (live_failed v' w1 revs err')
    from reg2 live_failed(2) have "RegisterWorkflowVersion payload (Inr v) \<in> set revs" by simp
    from retry_registered [OF live_failed(1) this] have "v' = v" by simp
    from read2 live_failed(2) retry_log(1) [OF live_failed(1)]
    have "lres = Inl err'" by auto
    with live_failed(3) show ?thesis by simp
  next
    case (already_live v' w1 revs)
    from reg2 already_live(2) have "RegisterWorkflowVersion payload (Inr v) \<in> set revs" by simp
    from retry_registered [OF already_live(1) this] have v: "v' = v" by simp
    from read2 already_live(2) retry_log(1) [OF already_live(1)]
    have l: "lres = Inr v'" by auto
    have "filter is_SetWorkflowVersionTag revs = []"
      by (rule no_SetWorkflowVersionTag_filter) (rule retry_log(2) [OF already_live(1)])
    with pre_none evs already_live(2,3) v l show ?thesis by simp
  next
    case (promoted v' w1 revs lres')
    from reg2 promoted(2) have "RegisterWorkflowVersion payload (Inr v) \<in> set revs" by simp
    from retry_registered [OF promoted(1) this] have v: "v' = v" "payload = ?payload" by simp_all
    from read2 promoted(2) retry_log(1) [OF promoted(1)]
    have l: "lres = lres'" by auto
    have "filter is_SetWorkflowVersionTag revs = []"
      by (rule no_SetWorkflowVersionTag_filter) (rule retry_log(2) [OF promoted(1)])
    with pre_none evs promoted(2) v
    have "filter is_SetWorkflowVersionTag evs =
            [SetWorkflowVersionTag organizationId (in_workflowId payload) ''$LIVE'' v r]"
      by simp
    with promoted(3) l v show ?thesis by auto
  qed
qed

lemma deployWorkflows_body_sets_at_most_once:
  assumes run: "deployWorkflows_body E organizationId bucket key w = (r, w', evs)"
  shows "(filter is_SetWorkflowVersionTag evs = [] \<and>
          (r = Inr () \<longrightarrow> (\<exists>payload v. RegisterWorkflowVersion payload (Inr v) \<in> set evs))) \<or>
         (\<exists>payload v lres.
            RegisterWorkflowVersion payload (Inr v) \<in> set evs \<and>
            GetTaggedWorkflowVersion organizationId (in_workflowId payload) ''$LIVE'' lres \<in> set evs \<and>
            lres \<noteq> Inr v \<and>
            filter is_SetWorkflowVersionTag evs =
              [SetWorkflowVersionTag organizationId (in_workflowId payload) ''$LIVE'' v r])"
proof -
  from deployWorkflows_body_split [OF run] show ?thesis
  proof
    assume all: "\<forall>ev \<in> set evs. is_resolution_call ev"
    have "filter is_SetWorkflowVersionTag evs = []"
      by (rule no_SetWorkflowVersionTag_filter) (rule resolution_log(2) [OF all])
    moreover have "r \<noteq> Inr ()"
      using run
    proof (cases rule: deployWorkflows_body_cases)
      case (created body definitionStr definitionJson wfs wfId w3 evs2)
      from register_and_promote_log(5) [OF created(6)] created(1) all
      show ?thesis by auto
    next
      case (matched body definitionStr definitionJson wfs m w3 evs2)
      from register_and_promote_log(5) [OF matched(6)] matched(1) all
      show ?thesis by auto
    qed auto
    ultimately show ?thesis by simp
  next
    assume "\<exists>pre definitionStr workflowName wfId w3 evs2.
            evs = pre @ evs2 \<and> (\<forall>ev \<in> set pre. is_resolution_call ev) \<and>
            register_and_promote E organizationId definitionStr workflowName wfId w3 = (r, w', evs2)"
    then obtain pre definitionStr workflowName wfId w3 evs2 where
      evs: "evs = pre @ evs2" and pre: "\<forall>ev \<in> set pre. is_resolution_call ev"
      and rp: "register_and_promote E organizationId definitionStr workflowName wfId w3 = (r, w', evs2)"
      by blast
    let ?payload = "\<lparr>in_organizationId = organizationId, in_workflowId = wfId,
                     in_definition = definitionStr\<rparr>"
    have pre_none: "filter is_SetWorkflowVersionTag pre = []"
      by (rule no_SetWorkflowVersionTag_filter) (rule resolution_log(2) [OF pre])
    from rp show ?thesis
    proof (cases rule: register_and_promote_cases)
      case (register_failed e)
      have "filter is_SetWorkflowVersionTag evs2 = []"
        by (rule no_SetWorkflowVersionTag_filter) (rule retry_log(2) [OF register_failed(1)])
      with pre_none evs register_failed(2) show ?thesis by simp
    next
      case (live_failed v w1 revs err)
      have "filter is_SetWorkflowVersionTag revs = []"
        by (rule no_SetWorkflowVersionTag_filter) (rule retry_log(2) [OF live_failed(1)])
      with pre_none evs live_failed(2,4) show ?thesis by simp
    next
      case (already_live v w1 revs)
      have "filter is_SetWorkflowVersionTag revs = []"
        by (rule no_SetWorkflowVersionTag_filter) (rule retry_log(2) [OF already_live(1)])
      moreover have "RegisterWorkflowVersion ?payload (Inr v) \<in> set evs"
        using retry_events(2) [OF already_live(1) refl] already_live(2) evs
        by (metis Un_iff last_in_set set_append)
      ultimately show ?thesis using pre_none evs already_live(2) by auto
    next
      case (promoted v w1 revs lres)
      have "filter is_SetWorkflowVersionTag revs = []"
        by (rule no_SetWorkflowVersionTag_filter) (rule retry_log(2) [OF promoted(1)])
      with pre_none evs promoted(2)
      have one: "filter is_SetWorkflowVersionTag evs =
              [SetWorkflowVersionTag organizationId (in_workflowId ?payload) ''$LIVE'' v r]"
        by simp
      have reg: "RegisterWorkflowVersion ?payload (Inr v) \<in> set evs"
        using retry_events(2) [OF promoted(1) refl] promoted(2) evs
        by (metis Un_iff last_in_set set_append)
      have read: "GetTaggedWorkflowVersion organizationId (in_workflowId ?payload) ''$LIVE'' lres
                    \<in> set evs"
        using promoted(2) evs by simp
      from promoted(3) have "lres \<noteq> Inr v" by auto
      with one reg read show ?thesis by blast
    qed
  qed
qed

lemma live_tag_was_set_via:
  assumes "filter is_SetWorkflowVersionTag evs = xs"
  shows "filter live_tag_was_set evs = filter live_tag_was_set xs"
  using live_tag_was_set_filter [of evs] assms by (simp del: filter_filter)

lemma live_tag_was_set_le:
  "length (filter live_tag_was_set evs) \<le> length (filter is_SetWorkflowVersionTag evs)"
  using length_filter_le [of live_tag_was_set "filter is_SetWorkflowVersionTag evs"]
    live_tag_was_set_filter [of evs]
  by (simp del: filter_filter)

lemma two_runs_set_live_tag_once:
  assumes run1: "deployWorkflows_body E organizationId bucket key w = (r, w1, evs)"
    and run2: "deployWorkflows_body E organizationId bucket key w1 = (r2, w2, evs2)"
    and det: "\<forall>p1 v1 p2 v2. RegisterWorkflowVersion p1 (Inr v1) \<in> set evs \<and>
                RegisterWorkflowVersion p2 (Inr v2) \<in> set evs2 \<longrightarrow> v2 = v1"
    and store: "\<forall>p v org wid tg lres. r = Inr () \<and> RegisterWorkflowVersion p (Inr v) \<in> set evs \<and>
                GetTaggedWorkflowVersion org wid tg lres \<in> set evs2 \<longrightarrow> lres = Inr v"
  shows "length (filter live_tag_was_set (evs @ evs2)) \<le> 1"
proof -
  note s1 = deployWorkflows_body_sets_at_most_once [OF run1]
  note s2 = deployWorkflows_body_sets_at_most_once [OF run2]
  have len1: "length (filter live_tag_was_set evs) \<le> 1"
    using s1 live_tag_was_set_le [of evs] by auto
  have len2: "length (filter live_tag_was_set evs2) \<le> 1"
    using s2 live_tag_was_set_le [of evs2] by auto
  show ?thesis
  proof (cases "filter is_SetWorkflowVersionTag evs2 = []")
    case True
    then have "filter live_tag_was_set evs2 = []"
      using live_tag_was_set_via [of evs2 "[]"] by simp
    with len1 show ?thesis by simp
  next
    case False
    with s2 obtain p2 v2 lres2 where
      reg2: "RegisterWorkflowVersion p2 (Inr v2) \<in> set evs2"
      and read2: "GetTaggedWorkflowVersion organizationId (in_workflowId p2) ''$LIVE'' lres2 \<in> set evs2"
      and differs: "lres2 \<noteq> Inr v2"
      by blast
    have "filter live_tag_was_set evs = []"
    proof (cases r)
      case (Inl e)
      from s1 Inl
      have "filter is_SetWorkflowVersionTag evs = [] \<or>
            (\<exists>org wid tg v. filter is_SetWorkflowVersionTag evs =
               [SetWorkflowVersionTag org wid tg v (Inl e)])"
        by blast
      then show ?thesis
      proof
        assume "filter is_SetWorkflowVersionTag evs = []"
        from live_tag_was_set_via [OF this] show ?thesis by simp
      next
        assume "\<exists>org wid tg v. filter is_SetWorkflowVersionTag evs =
                  [SetWorkflowVersionTag org wid tg v (Inl e)]"
        then obtain org wid tg v where
          "filter is_SetWorkflowVersionTag evs = [SetWorkflowVersionTag org wid tg v (Inl e)]"
          by blast
        from live_tag_was_set_via [OF this] show ?thesis by simp
      qed
    next
      case (Inr u)
      then have ok: "r = Inr ()" by simp
      with s1 obtain p1 v1 where reg1: "RegisterWorkflowVersion p1 (Inr v1) \<in> set evs"
        by blast
      from det reg1 reg2 have "v2 = v1" by blast
      moreover from store ok reg1 read2 have "lres2 = Inr v1" by blast
      ultimately show ?thesis using differs by simp
    qed
    with len2 show ?thesis by simp
  qed
qed

text \<open>
  Claim C6, as amended. Consider a run of the loop body on a key in which a version was
  registered with id \<open>v\<close> and the live version was read.
  If the read returned \<open>v\<close>, \<^verbatim>\<open>setWorkflowVersionTag\<close> is not called for the key, the body
  returns normally, and \<^verbatim>\<open>deployWorkflows\<close> goes on with the remaining keys. If the read
  returned another id, or threw an error that the \<^verbatim>\<open>catch\<close> takes for the absence of a live
  version, \<^verbatim>\<open>setWorkflowVersionTag\<close> is called exactly once, for the workflow the version was
  registered under, with the tag \<^verbatim>\<open>$LIVE\<close> and the id \<open>v\<close>.
  Consequently, for a second run of the body on the same key, started in the world the
  first run left: provided the registry returns in the second run the version id it
  returned in the first, and provided also that, when the first run completed, the second
  run's read of the live version returns that id, the live tag is set successfully at most
  once in the two runs together. The second proviso is needed: the deterministic version id
  alone does not give the bound.
\<close>

theorem promote_only_when_changed:
  assumes run: "deployWorkflows_body E organizationId bucket key w = (r, w1, evs)"
  shows "(\<forall>payload v org wid tg lres.
            RegisterWorkflowVersion payload (Inr v) \<in> set evs \<and>
            GetTaggedWorkflowVersion org wid tg lres \<in> set evs \<longrightarrow>
            (lres = Inr v \<longrightarrow>
               r = Inr () \<and> filter is_SetWorkflowVersionTag evs = [] \<and>
               deployWorkflows E organizationId bucket (key # rest) w =
                 (case deployWorkflows E organizationId bucket rest w1 of
                    (r2, w2, evs2) \<Rightarrow> (r2, w2, evs @ evs2))) \<and>
            ((\<exists>l. lres = Inr l \<and> l \<noteq> v) \<or>
             (\<exists>err. lres = Inl err \<and> noLiveVersionFound err = Inr True) \<longrightarrow>
               filter is_SetWorkflowVersionTag evs =
                 [SetWorkflowVersionTag organizationId (in_workflowId payload) ''$LIVE'' v r])) \<and>
         (\<forall>r2 w2 evs2.
            deployWorkflows_body E organizationId bucket key w1 = (r2, w2, evs2) \<and>
            (\<forall>p1 v1 p2 v2. RegisterWorkflowVersion p1 (Inr v1) \<in> set evs \<and>
                RegisterWorkflowVersion p2 (Inr v2) \<in> set evs2 \<longrightarrow> v2 = v1) \<and>
            (\<forall>p v org wid tg lres. r = Inr () \<and> RegisterWorkflowVersion p (Inr v) \<in> set evs \<and>
                GetTaggedWorkflowVersion org wid tg lres \<in> set evs2 \<longrightarrow> lres = Inr v) \<longrightarrow>
            length (filter live_tag_was_set (evs @ evs2)) \<le> 1)"
proof (intro conjI allI impI)
  fix payload v org wid tg lres
  assume h: "RegisterWorkflowVersion payload (Inr v) \<in> set evs \<and>
             GetTaggedWorkflowVersion org wid tg lres \<in> set evs"
  note p = deployWorkflows_body_promotion [OF run conjunct1 [OF h] conjunct2 [OF h]]
  {
    assume "lres = Inr v"
    with p show "r = Inr ()" by simp
    with run show "deployWorkflows E organizationId bucket (key # rest) w =
                 (case deployWorkflows E organizationId bucket rest w1 of
                    (r2, w2, evs2) \<Rightarrow> (r2, w2, evs @ evs2))"
      by simp
    from p \<open>lres = Inr v\<close> show "filter is_SetWorkflowVersionTag evs = []" by simp
  }
  {
    assume "(\<exists>l. lres = Inr l \<and> l \<noteq> v) \<or>
            (\<exists>err. lres = Inl err \<and> noLiveVersionFound err = Inr True)"
    with p show "filter is_SetWorkflowVersionTag evs =
                 [SetWorkflowVersionTag organizationId (in_workflowId payload) ''$LIVE'' v r]"
      by blast
  }
next
  fix r2 w2 evs2
  assume "deployWorkflows_body E organizationId bucket key w1 = (r2, w2, evs2) \<and>
            (\<forall>p1 v1 p2 v2. RegisterWorkflowVersion p1 (Inr v1) \<in> set evs \<and>
                RegisterWorkflowVersion p2 (Inr v2) \<in> set evs2 \<longrightarrow> v2 = v1) \<and>
            (\<forall>p v org wid tg lres. r = Inr () \<and> RegisterWorkflowVersion p (Inr v) \<in> set evs \<and>
                GetTaggedWorkflowVersion org wid tg lres \<in> set evs2 \<longrightarrow> lres = Inr v)"
  then show "length (filter live_tag_was_set (evs @ evs2)) \<le> 1"
    using two_runs_set_live_tag_once [OF run] by blast
qed

text \<open>
  Two runs on \<^verbatim>\<open>a.json\<close>: the first reads no live version and promotes; the second registers
  the same version id, reads it as live, and does not call \<^verbatim>\<open>setWorkflowVersionTag\<close>.
\<close>

lemma ascii_toUpperCase_alpha: "ascii_toUpperCase ''alpha'' = ''ALPHA''"
  by (simp add: ascii_toUpperCase_def)

lemma alpha_again_run:
  "deployWorkflows_body (sim_env abort_cfg) ''org'' ''bucket'' ''a.json'' after_alpha =
     (Inr (), after_alpha_again, alpha_again_events)"
  by (simp add: abort_cfg_def after_alpha_def after_alpha_again_def alpha_again_events_def
      sim_defs run_defs ascii_toUpperCase_alpha)

theorem promote_only_when_changed_witness:
  "deployWorkflows_body (sim_env abort_cfg) ''org'' ''bucket'' ''a.json'' sim_start =
     (Inr (), after_alpha, alpha_events) \<and>
   deployWorkflows_body (sim_env abort_cfg) ''org'' ''bucket'' ''a.json'' after_alpha =
     (Inr (), after_alpha_again, alpha_again_events) \<and>
   filter is_SetWorkflowVersionTag alpha_events =
     [SetWorkflowVersionTag ''org'' ''wf-alpha'' ''$LIVE'' ''wf-alpha#A'' (Inr ())] \<and>
   filter is_SetWorkflowVersionTag alpha_again_events = [] \<and>
   length (filter live_tag_was_set (alpha_events @ alpha_again_events)) \<le> 1"
proof -
  let ?payload = "\<lparr>in_organizationId = ''org'', in_workflowId = ''wf-alpha'', in_definition = ''A''\<rparr>"
  let ?notfound = "service_error ''NotFoundError'' 404 ''No version tagged $LIVE''"
  have nf: "noLiveVersionFound ?notfound = Inr True"
    by (simp add: noLiveVersionFound_def service_error_def optChain_def)
  have first: "filter is_SetWorkflowVersionTag alpha_events =
                 [SetWorkflowVersionTag ''org'' (in_workflowId ?payload) ''$LIVE'' ''wf-alpha#A'' (Inr ())]"
    using promote_only_when_changed [OF alpha_body_run, THEN conjunct1, rule_format,
        of ?payload "''wf-alpha#A''" "''org''" "''wf-alpha''" "''$LIVE''" "Inl ?notfound" "[]",
        THEN conjunct2] nf
    by (simp add: alpha_events_def)
  have second: "filter is_SetWorkflowVersionTag alpha_again_events = []"
    using promote_only_when_changed [OF alpha_again_run, THEN conjunct1, rule_format,
        of ?payload "''wf-alpha#A''" "''org''" "''wf-alpha''" "''$LIVE''" "Inr ''wf-alpha#A''" "[]",
        THEN conjunct1]
    by (simp add: alpha_again_events_def)
  have det: "\<forall>p1 v1 p2 v2. RegisterWorkflowVersion p1 (Inr v1) \<in> set alpha_events \<and>
                RegisterWorkflowVersion p2 (Inr v2) \<in> set alpha_again_events \<longrightarrow> v2 = v1"
    by (auto simp: alpha_events_def alpha_again_events_def)
  have store: "\<forall>p v org wid tg lres. Inr () = (Inr () :: jsval + unit) \<and>
                RegisterWorkflowVersion p (Inr v) \<in> set alpha_events \<and>
                GetTaggedWorkflowVersion org wid tg lres \<in> set alpha_again_events \<longrightarrow> lres = Inr v"
    by (auto simp: alpha_events_def alpha_again_events_def)
  have both: "length (filter live_tag_was_set (alpha_events @ alpha_again_events)) \<le> 1"
    using promote_only_when_changed [OF alpha_body_run, THEN conjunct2, rule_format,
        of "Inr ()" after_alpha_again alpha_again_events] alpha_again_run det store
    by blast
  from alpha_body_run alpha_again_run first second both show ?thesis by simp
qed

text \<open>
  The consequence as stated, with the deterministic version id as its only proviso, fails
  when the read of the live version does not return what the first run left live. Here the
  read throws, in both runs, an internal error whose message contains \<^verbatim>\<open>No version found\<close>:
  the registry returns the same version id \<^verbatim>\<open>wf-alpha#A\<close> for the same definition in both
  runs, each run takes the live version for null, and \<^verbatim>\<open>setWorkflowVersionTag\<close> succeeds
  twice.
\<close>

theorem two_runs_promote_twice_counterexample:
  "deployWorkflows_body (sim_env tag_internal_cfg) ''org'' ''bucket'' ''a.json'' sim_start =
     (Inr (), after_alpha,
      alpha_events_until (service_error ''InternalServerError'' 500 ''No version found in replica'') @
      [SetWorkflowVersionTag ''org'' ''wf-alpha'' ''$LIVE'' ''wf-alpha#A'' (Inr ())]) \<and>
   deployWorkflows_body (sim_env tag_internal_cfg) ''org'' ''bucket'' ''a.json'' after_alpha =
     (Inr (), promoted_twice,
      alpha_again_events_until
        (service_error ''InternalServerError'' 500 ''No version found in replica'') @
      [SetWorkflowVersionTag ''org'' ''wf-alpha'' ''$LIVE'' ''wf-alpha#A'' (Inr ())]) \<and>
   length (filter live_tag_was_set
     ((alpha_events_until (service_error ''InternalServerError'' 500 ''No version found in replica'') @
       [SetWorkflowVersionTag ''org'' ''wf-alpha'' ''$LIVE'' ''wf-alpha#A'' (Inr ())]) @
      (alpha_again_events_until
         (service_error ''InternalServerError'' 500 ''No version found in replica'') @
       [SetWorkflowVersionTag ''org'' ''wf-alpha'' ''$LIVE'' ''wf-alpha#A'' (Inr ())]))) = 2"
  by (simp add: tag_internal_cfg_def abort_cfg_def after_alpha_def promoted_twice_def
      alpha_events_until_def alpha_again_events_until_def sim_defs run_defs
      ascii_toUpperCase_alpha)

subsection \<open>The paths through the handler\<close>

lemma handler_cases:
  assumes run: "handler E requestType w = (r, w', evs)"
  obtains (rejected) e where "evs = []" and "r = Inl e"
  | (secret_failed) secretName e where
      "evs = [GetSecretValue secretName (Inl e)]" and "r = Inl e"
  | (placeholder) secretName where
      "evs = [GetSecretValue secretName (Inr (Some PLACEHOLDER_TOKEN))]"
      and "r = Inr \<lparr>PhysicalResourceId = ''JustWorkflowItIntegrationTrigger'',
                   Data = [(''Message'', JStr (''Skipped '' @ RequestType_text requestType @
                                               '' - placeholder token detected'')),
                           (''PlaceholderTokenDetected'', JStr ''true'')]\<rparr>"
  | (nothing_to_deploy) secretName authToken where
      "authToken \<noteq> Some PLACEHOLDER_TOKEN"
      and "evs = [GetSecretValue secretName (Inr authToken)]"
      and "r = Inr \<lparr>PhysicalResourceId = ''JustWorkflowItIntegrationTrigger'',
                     Data = [(''Message'', JStr (''Ran '' @ RequestType_text requestType @
                                                 '' successfully''))]\<rparr>"
  | (deployed) secretName authToken organizationId bucket keys w1 dr devs where
      "authToken \<noteq> Some PLACEHOLDER_TOKEN"
      and "requestType = Create \<or> requestType = Update"
      and "deployWorkflows E organizationId bucket keys w1 = (dr, w', devs)"
      and "evs = GetSecretValue secretName (Inr authToken) # devs"
      and "r = (case dr of
                  Inr u \<Rightarrow> Inr \<lparr>PhysicalResourceId = ''JustWorkflowItIntegrationTrigger'',
                     Data = [(''Message'', JStr (''Ran '' @ RequestType_text requestType @
                                                 '' successfully''))]\<rparr>
                | Inl error \<Rightarrow>
                    if process_env E ''IGNORE_FAILURES'' = Some ''true'' then
                      Inr \<lparr>PhysicalResourceId = ''JustWorkflowItIntegrationTrigger'',
                           Data = [(''Message'', JStr (RequestType_text requestType @
                                                      '' completed with ignored failures'')),
                                   (''FailureIgnored'', JStr ''true''),
                                   (''Error'', error_text E error)]\<rparr>
                    else Inl error)"
proof -
  let ?ran = "\<lparr>PhysicalResourceId = ''JustWorkflowItIntegrationTrigger'',
               Data = [(''Message'', JStr (''Ran '' @ RequestType_text requestType @
                                           '' successfully''))]\<rparr>"
  from run [unfolded handler_def Let_def] show thesis
  proof (cases rule: awaitE)
    case (thrown e)
    then show thesis by (intro rejected) (auto simp: pure_def)
  next
    case parsed: (returned keys w0 evs0 rest0)
    then have w0: "w0 = w" and evs0: "evs0 = []" by (auto simp: pure_def)
    show thesis
    proof (cases "process_env E ''DEFINITION_BUCKET'' = None \<or>
                  process_env E ''DEFINITION_BUCKET'' = Some [] \<or>
                  process_env E ''ORGANIZATION_ID'' = None \<or>
                  process_env E ''ORGANIZATION_ID'' = Some [] \<or>
                  process_env E ''AUTH_SECRET_NAME'' = None \<or>
                  process_env E ''AUTH_SECRET_NAME'' = Some []")
      case True
      with parsed(2) obtain e where "r = Inl e" and "rest0 = []"
        by (auto simp: pure_def split: if_splits)
      with parsed(3) evs0 show thesis
        by (intro rejected [of e]) auto
    next
      case False
      then obtain b og nm where env:
        "process_env E ''DEFINITION_BUCKET'' = Some b" "b \<noteq> []"
        "process_env E ''ORGANIZATION_ID'' = Some og" "og \<noteq> []"
        "process_env E ''AUTH_SECRET_NAME'' = Some nm" "nm \<noteq> []"
        by auto
      let ?name = "the (process_env E ''AUTH_SECRET_NAME'')"
      let ?org = "the (process_env E ''ORGANIZATION_ID'')"
      let ?bucket = "the (process_env E ''DEFINITION_BUCKET'')"
      from parsed(2) have
        "await (getSecretValueByName E ?name) (\<lambda>authToken.
           if authToken = Some PLACEHOLDER_TOKEN then
             pure (Inr \<lparr>PhysicalResourceId = ''JustWorkflowItIntegrationTrigger'',
                   Data = [(''Message'', JStr (''Skipped '' @ RequestType_text requestType @
                                               '' - placeholder token detected'')),
                           (''PlaceholderTokenDetected'', JStr ''true'')]\<rparr>)
           else
           await
             (if requestType = Create \<or> requestType = Update then
                (if keys = [] then pure (Inr None)
                 else (\<lambda>w.
                   case deployWorkflows E ?org ?bucket keys w of
                     (Inr u, w1, evs) \<Rightarrow> (Inr None, w1, evs)
                   | (Inl error, w1, evs) \<Rightarrow>
                       if process_env E ''IGNORE_FAILURES'' = Some ''true'' then
                         (Inr (Some \<lparr>PhysicalResourceId = ''JustWorkflowItIntegrationTrigger'',
                                Data = [(''Message'', JStr (RequestType_text requestType @
                                                           '' completed with ignored failures'')),
                                        (''FailureIgnored'', JStr ''true''),
                                        (''Error'', error_text E error)]\<rparr>), w1, evs)
                       else (Inl error, w1, evs)))
              else pure (Inr None)) (\<lambda>returned.
           case returned of
             Some early \<Rightarrow> pure (Inr early)
           | None \<Rightarrow> pure (Inr ?ran))) w0 = (r, w', rest0)"
        by (simp add: env)
      then show thesis
      proof (cases rule: awaitE)
        case (thrown e)
        with parsed(3) evs0 show thesis
          by (intro secret_failed [of ?name e])
             (auto simp: getSecretValueByName_def call_def split: prod.splits)
      next
        case secret: (returned authToken w1 evs1 rest1)
        then have evs1: "evs1 = [GetSecretValue ?name (Inr authToken)]"
          by (auto simp: getSecretValueByName_def call_def split: prod.splits)
        have evs: "evs = GetSecretValue ?name (Inr authToken) # rest1"
          using parsed(3) evs0 secret(3) evs1 by simp
        show thesis
        proof (cases "authToken = Some PLACEHOLDER_TOKEN")
          case True
          with secret(2) evs show thesis
            by (intro placeholder [of ?name]) (auto simp: pure_def)
        next
          case other: False
          show thesis
          proof (cases "(requestType = Create \<or> requestType = Update) \<and> keys \<noteq> []")
            case False
            with other secret(2) evs show thesis
              by (intro nothing_to_deploy [of authToken ?name])
                 (auto simp: await_pure pure_def split: if_splits)
          next
            case True
            obtain dr w2 devs where d: "deployWorkflows E ?org ?bucket keys w1 = (dr, w2, devs)"
              by (cases "deployWorkflows E ?org ?bucket keys w1")
            from True other secret(2) d have "w2 = w'" and "rest1 = devs"
              and "r = (case dr of
                  Inr u \<Rightarrow> Inr ?ran
                | Inl error \<Rightarrow>
                    if process_env E ''IGNORE_FAILURES'' = Some ''true'' then
                      Inr \<lparr>PhysicalResourceId = ''JustWorkflowItIntegrationTrigger'',
                           Data = [(''Message'', JStr (RequestType_text requestType @
                                                      '' completed with ignored failures'')),
                                   (''FailureIgnored'', JStr ''true''),
                                   (''Error'', error_text E error)]\<rparr>
                    else Inl error)"
              by (auto simp: await_def pure_def split: sum.splits if_splits)
            with True other d evs show thesis
              by (intro deployed [of authToken ?org ?bucket keys w1 dr devs ?name]) auto
          qed
        qed
      qed
    qed
  qed
qed

lemma deployWorkflows_body_no_secret:
  assumes run: "deployWorkflows_body E organizationId bucket key w = (r, w', evs)"
  shows "GetSecretValue secretName res \<notin> set evs"
proof -
  from deployWorkflows_body_split [OF run] show ?thesis
  proof
    assume "\<forall>ev \<in> set evs. is_resolution_call ev"
    then show ?thesis by auto
  next
    assume "\<exists>pre definitionStr workflowName wfId w3 evs2.
            evs = pre @ evs2 \<and> (\<forall>ev \<in> set pre. is_resolution_call ev) \<and>
            register_and_promote E organizationId definitionStr workflowName wfId w3 = (r, w', evs2)"
    then obtain pre definitionStr workflowName wfId w3 evs2 where
      evs: "evs = pre @ evs2" and pre: "\<forall>ev \<in> set pre. is_resolution_call ev"
      and rp: "register_and_promote E organizationId definitionStr workflowName wfId w3 = (r, w', evs2)"
      by blast
    from pre have "GetSecretValue secretName res \<notin> set pre" by auto
    moreover from register_and_promote_events [OF rp, THEN conjunct1, THEN bspec,
        of "GetSecretValue secretName res"]
    have "GetSecretValue secretName res \<notin> set evs2" by auto
    ultimately show ?thesis using evs by simp
  qed
qed

lemma deployWorkflows_no_secret:
  "deployWorkflows E organizationId bucket keys w = (r, w', evs) \<Longrightarrow>
   GetSecretValue secretName res \<notin> set evs"
proof (induction keys arbitrary: w r w' evs)
  case Nil
  then show ?case by simp
next
  case (Cons key keys)
  obtain r1 w1 evs1 where body: "deployWorkflows_body E organizationId bucket key w = (r1, w1, evs1)"
    by (cases "deployWorkflows_body E organizationId bucket key w")
  obtain r2 w2 evs2 where rest: "deployWorkflows E organizationId bucket keys w1 = (r2, w2, evs2)"
    by (cases "deployWorkflows E organizationId bucket keys w1")
  from Cons.prems body rest have "evs = evs1 \<or> evs = evs1 @ evs2"
    by (auto split: sum.splits)
  with deployWorkflows_body_no_secret [OF body] Cons.IH [OF rest] show ?case
    by auto
qed

subsection \<open>Bootstrap gate\<close>

text \<open>
  Claim C4. In every run of the handler, for every request type, in which the secret store
  returned the placeholder token as the credential, the handler returns the skip outcome,
  whose data carry the message \<^verbatim>\<open>Skipped <RequestType> - placeholder token detected\<close> and
  \<^verbatim>\<open>PlaceholderTokenDetected\<close> set to \<^verbatim>\<open>"true"\<close>, and the read of the secret is the only remote
  call: no storage call and no registry call is made.
\<close>

theorem placeholder_gate:
  assumes run: "handler E requestType w = (r, w', evs)"
    and resolved: "GetSecretValue secretName (Inr (Some PLACEHOLDER_TOKEN)) \<in> set evs"
  shows "r = Inr \<lparr>PhysicalResourceId = ''JustWorkflowItIntegrationTrigger'',
                   Data = [(''Message'', JStr (''Skipped '' @ RequestType_text requestType @
                                               '' - placeholder token detected'')),
                           (''PlaceholderTokenDetected'', JStr ''true'')]\<rparr> \<and>
         evs = [GetSecretValue secretName (Inr (Some PLACEHOLDER_TOKEN))] \<and>
         (\<forall>ev \<in> set evs. \<not> is_storage_call ev \<and> \<not> is_registry_call ev)"
  using run
proof (cases rule: handler_cases)
  case (rejected e)
  with resolved show ?thesis by simp
next
  case (secret_failed secretName' e)
  with resolved show ?thesis by simp
next
  case (placeholder secretName')
  with resolved show ?thesis by simp
next
  case (nothing_to_deploy secretName' authToken)
  with resolved show ?thesis by simp
next
  case (deployed secretName' authToken organizationId bucket keys w1 dr devs)
  with resolved deployWorkflows_no_secret [OF deployed(3), of secretName "Inr (Some PLACEHOLDER_TOKEN)"]
  show ?thesis by simp
qed

subsection \<open>Delete\<close>

text \<open>
  Claim C10, as amended. In every run of the handler on a \<^verbatim>\<open>Delete\<close> request no storage call
  and no registry call is made, and whenever the credential was read from the secret store
  the handler returns a success outcome: the skip outcome if the credential is the
  placeholder, the \<^verbatim>\<open>Ran Delete successfully\<close> outcome otherwise.
\<close>

theorem delete_makes_no_remote_change:
  assumes run: "handler E Delete w = (r, w', evs)"
  shows "(\<forall>ev \<in> set evs. \<not> is_storage_call ev \<and> \<not> is_registry_call ev) \<and>
         (\<forall>secretName authToken. GetSecretValue secretName (Inr authToken) \<in> set evs \<longrightarrow>
            r = Inr \<lparr>PhysicalResourceId = ''JustWorkflowItIntegrationTrigger'',
                     Data = (if authToken = Some PLACEHOLDER_TOKEN
                             then [(''Message'', JStr ''Skipped Delete - placeholder token detected''),
                                   (''PlaceholderTokenDetected'', JStr ''true'')]
                             else [(''Message'', JStr ''Ran Delete successfully'')])\<rparr>)"
  using run
proof (cases rule: handler_cases)
  case (deployed secretName' authToken organizationId bucket keys w1 dr devs)
  then show ?thesis by simp
qed auto

subsection \<open>Failure containment\<close>

text \<open>
  Claim C5. Let the handler, on a \<^verbatim>\<open>Create\<close> or \<^verbatim>\<open>Update\<close> request, get past its configuration
  checks, read a credential other than the placeholder, and call \<^verbatim>\<open>deployWorkflows\<close> on a
  non-empty key list; and let that call throw \<open>error\<close>. If \<^verbatim>\<open>IGNORE_FAILURES\<close> is \<^verbatim>\<open>"true"\<close>,
  the handler returns a success outcome whose data carry the message
  \<^verbatim>\<open><RequestType> completed with ignored failures\<close>, \<^verbatim>\<open>FailureIgnored\<close> set to \<^verbatim>\<open>"true"\<close> and,
  as \<^verbatim>\<open>Error\<close>, the text of the error: its \<^verbatim>\<open>message\<close> when it is an \<^verbatim>\<open>Error\<close> instance, its
  conversion to a string otherwise. If not, the handler throws \<open>error\<close> itself. In both
  cases the calls made are the read of the secret and those of \<^verbatim>\<open>deployWorkflows\<close>.
\<close>

theorem failure_containment:
  assumes "process_env E ''DEFINITION_BUCKET'' = Some bucket" and "bucket \<noteq> []"
    and "process_env E ''ORGANIZATION_ID'' = Some organizationId" and "organizationId \<noteq> []"
    and "process_env E ''AUTH_SECRET_NAME'' = Some secretName" and "secretName \<noteq> []"
    and "JSON_parse_keys E
           (case process_env E ''DEFINITION_KEYS_JSON'' of
              None \<Rightarrow> ''[]''
            | Some s \<Rightarrow> if s = [] then ''[]'' else s) = Inr keys"
    and "keys \<noteq> []"
    and "secrets_send E secretName w = (Inr authToken, w1)"
    and "authToken \<noteq> Some PLACEHOLDER_TOKEN"
    and "requestType = Create \<or> requestType = Update"
    and "deployWorkflows E organizationId bucket keys w1 = (Inl error, w2, devs)"
  shows "handler E requestType w =
           (if process_env E ''IGNORE_FAILURES'' = Some ''true'' then
              Inr \<lparr>PhysicalResourceId = ''JustWorkflowItIntegrationTrigger'',
                   Data = [(''Message'', JStr (RequestType_text requestType @
                                              '' completed with ignored failures'')),
                           (''FailureIgnored'', JStr ''true''),
                           (''Error'', error_text E error)]\<rparr>
            else Inl error,
            w2, GetSecretValue secretName (Inr authToken) # devs) \<and>
         (\<forall>fs. error = JObj ErrorInstance fs \<longrightarrow> error_text E error = getProp error ''message'')"
  using assms
  by (auto simp: handler_def getSecretValueByName_def Let_def await_def pure_def call_def
      error_text_def)

subsection \<open>Concrete runs of the handler\<close>

text \<open>
  With the placeholder stored as the credential, an \<^verbatim>\<open>Update\<close> with three keys configured
  reads the secret and returns the skip outcome.
\<close>

lemma placeholder_run:
  "handler (sim_env placeholder_cfg) Update sim_start =
     (Inr \<lparr>PhysicalResourceId = ''JustWorkflowItIntegrationTrigger'',
           Data = [(''Message'', JStr ''Skipped Update - placeholder token detected''),
                   (''PlaceholderTokenDetected'', JStr ''true'')]\<rparr>,
      sim_start, [GetSecretValue ''secret'' (Inr (Some PLACEHOLDER_TOKEN))])"
  by (simp add: handler_def getSecretValueByName_def placeholder_cfg_def abort_cfg_def
      sim_defs await_def pure_def call_def Let_def)

theorem placeholder_gate_witness:
  "handler (sim_env placeholder_cfg) Update sim_start =
     (Inr \<lparr>PhysicalResourceId = ''JustWorkflowItIntegrationTrigger'',
           Data = [(''Message'', JStr ''Skipped Update - placeholder token detected''),
                   (''PlaceholderTokenDetected'', JStr ''true'')]\<rparr>,
      sim_start, [GetSecretValue ''secret'' (Inr (Some PLACEHOLDER_TOKEN))]) \<and>
   cfg_keys placeholder_cfg = [''a.json'', ''b.json'', ''c.json''] \<and>
   \<not> is_storage_call (GetSecretValue ''secret'' (Inr (Some PLACEHOLDER_TOKEN))) \<and>
   \<not> is_registry_call (GetSecretValue ''secret'' (Inr (Some PLACEHOLDER_TOKEN)))"
  using placeholder_gate [OF placeholder_run, of "''secret''"] placeholder_run
  by (simp add: placeholder_cfg_def abort_cfg_def)

text \<open>
  With a registry that answers every \<^verbatim>\<open>registerWorkflowVersion\<close> with a 503: three attempts
  for \<^verbatim>\<open>a.json\<close>, then, with \<^verbatim>\<open>IGNORE_FAILURES\<close> set, a success outcome carrying the message of
  the error, and without it the error itself.
\<close>

lemma outage_deploy_run:
  "deployWorkflows (sim_env outage_cfg) ''org'' ''bucket'' [''a.json'', ''b.json'', ''c.json'']
     sim_start =
     (Inl (service_error ''InternalFailure'' 503 ''unavailable''), outage_world, outage_events)"
  by (simp add: outage_cfg_def abort_cfg_def outage_world_def outage_events_def
      sim_defs run_defs shouldRetryRegister_def)


lemma outage_text:
  "error_text (sim_env outage_cfg) (service_error ''InternalFailure'' 503 ''unavailable'') =
     JStr ''unavailable''"
  by (simp add: error_text_def service_error_def)

theorem failure_containment_witness:
  "handler (sim_env outage_cfg) Create sim_start =
     (Inr \<lparr>PhysicalResourceId = ''JustWorkflowItIntegrationTrigger'',
           Data = [(''Message'', JStr ''Create completed with ignored failures''),
                   (''FailureIgnored'', JStr ''true''),
                   (''Error'', JStr ''unavailable'')]\<rparr>,
      outage_world, GetSecretValue ''secret'' (Inr (Some ''token'')) # outage_events) \<and>
   handler (sim_env (outage_cfg\<lparr>cfg_process_env := cfg_process_env sim_default\<rparr>)) Create sim_start =
     (Inl (service_error ''InternalFailure'' 503 ''unavailable''),
      outage_world, GetSecretValue ''secret'' (Inr (Some ''token'')) # outage_events)"
proof -
  have strict_run:
    "deployWorkflows (sim_env (outage_cfg\<lparr>cfg_process_env := cfg_process_env sim_default\<rparr>))
       ''org'' ''bucket'' [''a.json'', ''b.json'', ''c.json''] sim_start =
     (Inl (service_error ''InternalFailure'' 503 ''unavailable''), outage_world, outage_events)"
    by (simp add: outage_cfg_def abort_cfg_def outage_world_def outage_events_def
        sim_defs run_defs shouldRetryRegister_def)
  have contained:
    "handler (sim_env outage_cfg) Create sim_start =
     (Inr \<lparr>PhysicalResourceId = ''JustWorkflowItIntegrationTrigger'',
           Data = [(''Message'', JStr ''Create completed with ignored failures''),
                   (''FailureIgnored'', JStr ''true''),
                   (''Error'', JStr ''unavailable'')]\<rparr>,
      outage_world, GetSecretValue ''secret'' (Inr (Some ''token'')) # outage_events)"
    using failure_containment [of "sim_env outage_cfg" "''bucket''" "''org''" "''secret''"
        "[''a.json'', ''b.json'', ''c.json'']" sim_start "Some ''token''" sim_start Create
        "service_error ''InternalFailure'' 503 ''unavailable''" outage_world outage_events,
        THEN conjunct1]
      outage_deploy_run outage_text
    by (simp add: outage_cfg_def abort_cfg_def sim_env_def sim_default_def PLACEHOLDER_TOKEN_def)
  have rethrown:
    "handler (sim_env (outage_cfg\<lparr>cfg_process_env := cfg_process_env sim_default\<rparr>)) Create sim_start =
     (Inl (service_error ''InternalFailure'' 503 ''unavailable''),
      outage_world, GetSecretValue ''secret'' (Inr (Some ''token'')) # outage_events)"
    using failure_containment [of "sim_env (outage_cfg\<lparr>cfg_process_env := cfg_process_env sim_default\<rparr>)"
        "''bucket''" "''org''" "''secret''"
        "[''a.json'', ''b.json'', ''c.json'']" sim_start "Some ''token''" sim_start Create
        "service_error ''InternalFailure'' 503 ''unavailable''" outage_world outage_events,
        THEN conjunct1]
      strict_run
    by (simp add: outage_cfg_def abort_cfg_def sim_env_def sim_default_def PLACEHOLDER_TOKEN_def)
  from contained rethrown show ?thesis ..
qed

text \<open>A \<^verbatim>\<open>Delete\<close> with a readable credential: one read of the secret, then success.\<close>

lemma delete_run:
  "handler (sim_env abort_cfg) Delete sim_start =
     (Inr \<lparr>PhysicalResourceId = ''JustWorkflowItIntegrationTrigger'',
           Data = [(''Message'', JStr ''Ran Delete successfully'')]\<rparr>,
      sim_start, [GetSecretValue ''secret'' (Inr (Some ''token''))])"
  by (simp add: handler_def getSecretValueByName_def abort_cfg_def
      sim_defs await_def pure_def call_def Let_def PLACEHOLDER_TOKEN_def)

theorem delete_makes_no_remote_change_witness:
  "handler (sim_env abort_cfg) Delete sim_start =
     (Inr \<lparr>PhysicalResourceId = ''JustWorkflowItIntegrationTrigger'',
           Data = [(''Message'', JStr ''Ran Delete successfully'')]\<rparr>,
      sim_start, [GetSecretValue ''secret'' (Inr (Some ''token''))]) \<and>
   \<not> is_storage_call (GetSecretValue ''secret'' (Inr (Some ''token''))) \<and>
   \<not> is_registry_call (GetSecretValue ''secret'' (Inr (Some ''token'')))"
  using delete_makes_no_remote_change [OF delete_run, THEN conjunct2, rule_format,
      of "''secret''" "Some ''token''"]
    delete_makes_no_remote_change [OF delete_run, THEN conjunct1, THEN bspec,
      of "GetSecretValue ''secret'' (Inr (Some ''token''))"] delete_run
  by (simp add: PLACEHOLDER_TOKEN_def)

text \<open>
  The claim as stated, with success returned unconditionally, fails when the secret cannot
  be read, as after its deletion: the handler reads the credential before it looks at the
  request type, and the error of the secret store is thrown.
\<close>

theorem delete_secret_unavailable_counterexample:
  "handler (sim_env secret_gone_cfg) Delete sim_start =
     (Inl (service_error ''ResourceNotFoundException'' 400 ''secret not found''), sim_start,
      [GetSecretValue ''secret''
         (Inl (service_error ''ResourceNotFoundException'' 400 ''secret not found''))])"
  by (simp add: handler_def getSecretValueByName_def secret_gone_cfg_def abort_cfg_def
      sim_defs await_def pure_def call_def Let_def)

end
